theory Spec2Isabelle
  imports Main
begin

section \<open>The number guessing game of random_number.py\<close>

text \<open>
  The program is one Python module: two enumerations, seven small functions and the
  game loop \<open>run_game\<close>. The embedding below follows the module top to bottom. Every
  function that reads the keyboard or prints takes the console and returns it updated;
  a function that only computes (\<open>check_guess\<close>, \<open>validate_guess_range\<close>) has no
  console in its type.
\<close>

subsection \<open>Enumerations (lines 6 to 16)\<close>

datatype Difficulty = NORMAL | HARD

text \<open>The \<open>.value\<close> of a member of \<open>Difficulty\<close>: the number of attempts.\<close>

fun Difficulty_value :: "Difficulty \<Rightarrow> int" where
  "Difficulty_value NORMAL = 10"
| "Difficulty_value HARD = 5"

datatype GameState = PLAYING | WON | LOST

subsection \<open>Text, the interpreter and the console\<close>

text \<open>
  A Python \<open>str\<close> is the list of its code points. \<open>lit\<close> turns an ASCII literal of
  the module into such a list; the characters of the module's literals that are not ASCII
  are written as numbers, as the source file, read as UTF-8, holds them.
\<close>

type_synonym pystr = "nat list"

definition lit :: "string \<Rightarrow> pystr" where
  "lit s = map of_char s"

text \<open>
  What the interpreter brings and the module does not hold: \<open>str.lower()\<close> on a string
  that has a character outside ASCII (it follows the Unicode tables and, for the Greek
  sigma, the neighbouring characters), the decimal value of a digit outside ASCII, and
  the limit on the number of digits that \<open>int\<close> reads
  (\<open>sys.get_int_max_str_digits()\<close>: 4300 unless set otherwise, 0 for no limit, and no
  limit in interpreters that do not have the setting). Every function that reads a line
  takes them as its first argument, and every property below holds whatever they are.
\<close>

record runtime =
  unicode_lower :: "pystr \<Rightarrow> pystr"
  unicode_decimal :: "nat \<Rightarrow> nat option"
  max_str_digits :: nat

text \<open>
  The keyboard is the list of the lines still to be read, each without its line end;
  \<open>input\<close> at the end of the list raises \<open>EOFError\<close>, as Python does at end of file.
  The screen is the text written so far.
\<close>

datatype py_error = EOFError

record console =
  stdin :: "pystr list"
  stdout :: pystr

text \<open>\<open>print(s, end=e)\<close> and \<open>print(s)\<close>; 10 is the line feed.\<close>

definition print_end :: "pystr \<Rightarrow> pystr \<Rightarrow> console \<Rightarrow> console" where
  "print_end s e c = c\<lparr>stdout := stdout c @ s @ e\<rparr>"

definition print :: "pystr \<Rightarrow> console \<Rightarrow> console" where
  "print s = print_end s [10]"

text \<open>\<open>input(prompt)\<close>: writes the prompt, then reads one line.\<close>

definition input :: "pystr \<Rightarrow> console \<Rightarrow> (py_error + pystr) \<times> console" where
  "input prompt c =
     (case stdin c of
        [] \<Rightarrow> (Inl EOFError, print_end prompt [] c)
      | line # rest \<Rightarrow> (Inr line, (print_end prompt [] c)\<lparr>stdin := rest\<rparr>))"

subsection \<open>The built-in functions the module calls\<close>

text \<open>
  \<open>str.isspace\<close> on one character: the white space of Unicode, which has the
  separators U+001C to U+001F. \<open>str.strip()\<close> drops such characters at both ends.
\<close>

definition isspace :: "nat \<Rightarrow> bool" where
  "isspace ch =
     (ch \<in> {0x09, 0x0A, 0x0B, 0x0C, 0x0D, 0x1C, 0x1D, 0x1E, 0x1F, 0x20, 0x85, 0xA0, 0x1680,
             0x2028, 0x2029, 0x202F, 0x205F, 0x3000} \<or>
      (0x2000 \<le> ch \<and> ch \<le> 0x200A))"

definition strip_with :: "(nat \<Rightarrow> bool) \<Rightarrow> pystr \<Rightarrow> pystr" where
  "strip_with sp s = rev (dropWhile sp (rev (dropWhile sp s)))"

definition strip :: "pystr \<Rightarrow> pystr" where
  "strip s = strip_with isspace s"

text \<open>
  \<open>str.lower()\<close>: on an ASCII string the letters A to Z move to a to z, one by one; any
  other string is the interpreter's to map.
\<close>

definition lower_ascii :: "nat \<Rightarrow> nat" where
  "lower_ascii ch = (if 65 \<le> ch \<and> ch \<le> 90 then ch + 32 else ch)"

definition lower :: "runtime \<Rightarrow> pystr \<Rightarrow> pystr" where
  "lower rt s = (if list_all (\<lambda>ch. ch < 128) s then map lower_ascii s else unicode_lower rt s)"

text \<open>\<open>sep.join(xs)\<close>.\<close>

fun join :: "pystr \<Rightarrow> pystr list \<Rightarrow> pystr" where
  "join sep [] = []"
| "join sep [x] = x"
| "join sep (x # y # ys) = x @ sep @ join sep (y # ys)"

text \<open>The decimal numeral of an integer, as an f-string formats it; 48 is the digit 0.\<close>

fun str_nat :: "nat \<Rightarrow> pystr" where
  "str_nat n = (if n < 10 then [48 + n] else str_nat (n div 10) @ [48 + n mod 10])"

declare str_nat.simps [simp del]

definition str_int :: "int \<Rightarrow> pystr" where
  "str_int i = (if i < 0 then 45 # str_nat (nat (- i)) else str_nat (nat i))"

text \<open>
  \<open>int(s)\<close> on a string, \<open>None\<close> standing for the \<open>ValueError\<close> it raises.
  The interpreter first turns every character outside ASCII into a blank when it is white
  space, into the ASCII digit of its value when it is a decimal digit, and into a
  question mark otherwise (\<open>to_ascii\<close>). Of the result it drops the blank, tab, line
  feed, vertical tab, form feed and carriage return at both ends (\<open>int_space\<close>: the
  separators U+001C to U+001F are not among them), takes one sign, 45 or 43, and reads
  digits that single underscores, 95, may separate (\<open>digits\<close>). A numeral of more
  than 640 digits that also has more digits than the limit is refused
  (\<open>too_many_digits\<close>).
\<close>

definition int_space :: "nat \<Rightarrow> bool" where
  "int_space ch = (ch \<in> {0x09, 0x0A, 0x0B, 0x0C, 0x0D, 0x20})"

definition to_ascii :: "runtime \<Rightarrow> nat \<Rightarrow> nat" where
  "to_ascii rt ch =
     (if ch < 128 then ch
      else if isspace ch then 32
      else (case unicode_decimal rt ch of
              Some d \<Rightarrow> if d < 10 then 48 + d else 63
            | None \<Rightarrow> 63))"

definition isdigit :: "nat \<Rightarrow> bool" where
  "isdigit ch = (48 \<le> ch \<and> ch \<le> 57)"

definition digit_val :: "nat \<Rightarrow> int" where
  "digit_val ch = int ch - 48"

fun digits_acc :: "int \<Rightarrow> pystr \<Rightarrow> int option" where
  "digits_acc acc [] = Some acc"
| "digits_acc acc [ch] = (if isdigit ch then Some (10 * acc + digit_val ch) else None)"
| "digits_acc acc (ch # d # ds) =
     (if isdigit ch then digits_acc (10 * acc + digit_val ch) (d # ds)
      else if ch = 95 \<and> isdigit d then digits_acc (10 * acc + digit_val d) ds
      else None)"

definition digits :: "pystr \<Rightarrow> int option" where
  "digits s = (case s of [] \<Rightarrow> None
               | ch # cs \<Rightarrow> if isdigit ch then digits_acc (digit_val ch) cs else None)"

definition too_many_digits :: "runtime \<Rightarrow> pystr \<Rightarrow> bool" where
  "too_many_digits rt body =
     (640 < length (filter isdigit body) \<and> 0 < max_str_digits rt \<and>
      max_str_digits rt < length (filter isdigit body))"

definition py_int :: "runtime \<Rightarrow> pystr \<Rightarrow> int option" where
  "py_int rt s =
     (case strip_with int_space (map (to_ascii rt) s) of
        [] \<Rightarrow> None
      | ch # cs \<Rightarrow>
          (let body = (if ch = 45 \<or> ch = 43 then cs else ch # cs) in
           case digits body of
             None \<Rightarrow> None
           | Some v \<Rightarrow>
               if too_many_digits rt body then None
               else Some (if ch = 45 then - v else v)))"

lemma lit_Nil [simp]: "lit [] = []"
  by (simp add: lit_def)

lemma lit_Cons [simp]: "lit (ch # s) = of_char ch # lit s"
  by (simp add: lit_def)

lemma stdin_print_end [simp]: "stdin (print_end s e c) = stdin c"
  by (simp add: print_end_def)

lemma stdin_print [simp]: "stdin (print s c) = stdin c"
  by (simp add: print_def)

lemma input_shortens:
  "input prompt c = (Inr line, c') \<Longrightarrow> length (stdin c') < length (stdin c)"
  by (auto simp: input_def split: list.splits)

subsection \<open>The functions of the module (lines 19 to 131)\<close>

text \<open>\<open>get_valid_input\<close>, lines 19 to 34: the \<open>while True\<close> loop is the recursion.\<close>

function get_valid_input ::
  "runtime \<Rightarrow> pystr \<Rightarrow> pystr list \<Rightarrow> console \<Rightarrow> (py_error + pystr) \<times> console" where
  "get_valid_input rt prompt valid_options c =
     (case input prompt c of
        (Inl e, c') \<Rightarrow> (Inl e, c')
      | (Inr line, c') \<Rightarrow>
          (let user_input = lower rt (strip line) in
           if user_input \<in> set valid_options then (Inr user_input, c')
           else get_valid_input rt prompt valid_options
                  (print (lit ''Invalid input. Please choose from: '' @
                          join (lit '', '') valid_options) c')))"
  by pat_completeness auto
termination
  by (relation "measure (\<lambda>(rt, prompt, valid_options, c). length (stdin c))")
     (auto dest: input_shortens [OF sym])

declare get_valid_input.simps [simp del]

text \<open>\<open>validate_guess_range\<close>, lines 37 to 49; its callers pass the defaults 0 and 100.\<close>

definition validate_guess_range :: "int \<Rightarrow> int \<Rightarrow> int \<Rightarrow> bool" where
  "validate_guess_range guess min_val max_val = (min_val \<le> guess \<and> guess \<le> max_val)"

text \<open>\<open>select_difficulty\<close>, lines 52 to 67.\<close>

definition select_difficulty :: "pystr \<Rightarrow> console \<Rightarrow> Difficulty \<times> console" where
  "select_difficulty difficulty_input c =
     (if difficulty_input = lit ''0'' then (NORMAL, print (lit ''Normal Difficulty Selected'') c)
      else (HARD, print (lit ''Hard Difficulty Selected'') c))"

text \<open>\<open>check_guess\<close>, lines 70 to 86.\<close>

definition check_guess :: "int \<Rightarrow> int \<Rightarrow> pystr" where
  "check_guess target_number user_guess =
     (if user_guess > target_number then lit ''too_high''
      else if user_guess < target_number then lit ''too_low''
      else lit ''correct'')"

text \<open>
  \<open>show_life_hearts\<close>, lines 89 to 98. The literal that line 97 prints is, in the
  source file, the three characters U+00E2, U+00A4 and a blank. \<open>range(n)\<close> is empty
  for a negative \<open>n\<close>, as \<open>nat n\<close> is 0.
\<close>

definition show_life_hearts :: "int \<Rightarrow> console \<Rightarrow> console" where
  "show_life_hearts remaining_attempts c =
     print [] ((print_end [0xE2, 0xA4, 0x20] [] ^^ nat remaining_attempts) c)"

text \<open>\<open>show_game_result\<close>, lines 101 to 113.\<close>

definition show_game_result :: "int \<Rightarrow> GameState \<Rightarrow> console \<Rightarrow> console" where
  "show_game_result target_number game_state c =
     (if game_state = WON then
        print (lit ''Congratulations! You Win! '' @ [0xF0, 0x178, 0x17D, 0x2030]) c
      else if game_state = LOST then
        print (lit ''You Lose! Better luck next time! '' @ [0xF0, 0x178, 0x2019, 0x201D])
          (print (lit ''The correct number was: '' @ str_int target_number) c)
      else c)"

text \<open>
  \<open>get_user_guess\<close>, lines 116 to 131. The \<open>except ValueError\<close> clause is the
  \<open>None\<close> case of \<open>py_int\<close>; an \<open>EOFError\<close> of \<open>input\<close> is not caught.
\<close>

definition get_user_guess :: "runtime \<Rightarrow> console \<Rightarrow> (py_error + int option) \<times> console" where
  "get_user_guess rt c =
     (case input (lit ''Enter your guess (0-100): '') c of
        (Inl e, c') \<Rightarrow> (Inl e, c')
      | (Inr line, c') \<Rightarrow>
          (case py_int rt line of
             None \<Rightarrow>
               (Inr None, print (lit ''Invalid input. Please enter a valid integer.'') c')
           | Some guess \<Rightarrow>
               if \<not> validate_guess_range guess 0 100
               then (Inr None, print (lit ''Please enter a number between 0 and 100.'') c')
               else (Inr (Some guess), c')))"

lemma get_user_guess_shortens:
  "get_user_guess rt c = (Inr r, c') \<Longrightarrow> length (stdin c') < length (stdin c)"
  by (auto simp: get_user_guess_def split: prod.splits sum.splits option.splits if_splits
           dest: input_shortens)

subsection \<open>The game loop (lines 134 to 205)\<close>

text \<open>The variables of one round.\<close>

record session =
  target_number :: int
  remaining_attempts :: int
  game_state :: GameState

text \<open>Lines 173 to 175: ask until \<open>get_user_guess\<close> returns a number.\<close>

function read_guess :: "runtime \<Rightarrow> console \<Rightarrow> (py_error + int) \<times> console" where
  "read_guess rt c =
     (case get_user_guess rt c of
        (Inl e, c') \<Rightarrow> (Inl e, c')
      | (Inr None, c') \<Rightarrow> read_guess rt c'
      | (Inr (Some user_guess), c') \<Rightarrow> (Inr user_guess, c'))"
  by pat_completeness auto
termination
  by (relation "measure (\<lambda>(rt, c). length (stdin c))")
     (auto dest: get_user_guess_shortens [OF sym])

declare read_guess.simps [simp del]

text \<open>Lines 178 to 190: the guess is checked and the round's variables are updated.\<close>

definition turn :: "int \<Rightarrow> session \<Rightarrow> console \<Rightarrow> session \<times> console" where
  "turn user_guess s c =
     (let result = check_guess (target_number s) user_guess in
      if result = lit ''correct'' then (s\<lparr>game_state := WON\<rparr>, c)
      else
        (let s' = s\<lparr>remaining_attempts := remaining_attempts s - 1\<rparr> in
         if remaining_attempts s' = 0 then (s'\<lparr>game_state := LOST\<rparr>, c)
         else if result = lit ''too_high'' then
           (s', print (str_int user_guess @ lit '' is too high! '' @ [0xE2, 0x2020, 0x201C]) c)
         else
           (s', print (str_int user_guess @ lit '' is too low! '' @ [0xE2, 0x2020, 0x2018]) c)))"

lemma read_guess_shortens:
  "read_guess rt c = (Inr g, c') \<Longrightarrow> length (stdin c') < length (stdin c)"
proof (induction rt c rule: read_guess.induct)
  case (1 rt c)
  show ?case
  proof (cases "get_user_guess rt c")
    case (Pair r c1)
    show ?thesis
    proof (cases r)
      case (Inl e)
      with Pair "1.prems" show ?thesis by (simp add: read_guess.simps [of rt c])
    next
      case (Inr v)
      show ?thesis
      proof (cases v)
        case None
        with Pair Inr "1.prems" have "read_guess rt c1 = (Inr g, c')"
          by (simp add: read_guess.simps [of rt c])
        with "1.IH" Pair Inr None have "length (stdin c') < length (stdin c1)" by simp
        moreover from Pair Inr have "length (stdin c1) < length (stdin c)"
          by (simp add: get_user_guess_shortens)
        ultimately show ?thesis by simp
      next
        case (Some x)
        with Pair Inr "1.prems" have "c' = c1" by (simp add: read_guess.simps [of rt c])
        with Pair Inr show ?thesis by (simp add: get_user_guess_shortens)
      qed
    qed
  qed
qed

lemma stdin_show_life_hearts [simp]: "stdin (show_life_hearts n c) = stdin c"
proof -
  have "stdin ((print_end h [] ^^ k) c) = stdin c" for k h
    by (induction k) simp_all
  then show ?thesis by (simp add: show_life_hearts_def)
qed

lemma stdin_turn [simp]: "stdin (snd (turn g s c)) = stdin c"
  by (simp add: turn_def Let_def)

text \<open>Lines 168 to 190: the loop of one round.\<close>

function main_loop ::
  "runtime \<Rightarrow> session \<Rightarrow> console \<Rightarrow> (py_error + session) \<times> console" where
  "main_loop rt s c =
     (if game_state s = PLAYING then
        (case read_guess rt (show_life_hearts (remaining_attempts s)
                               (print_end (10 # lit ''Attempts remaining: '') [] c)) of
           (Inl e, c') \<Rightarrow> (Inl e, c')
         | (Inr user_guess, c') \<Rightarrow>
             (case turn user_guess s c' of (s', c'') \<Rightarrow> main_loop rt s' c''))
      else (Inr s, c))"
  by pat_completeness auto
termination
proof (relation "measure (\<lambda>(rt, s, c). length (stdin c))", goal_cases)
  case 1
  show ?case by simp
next
  case (2 rt s c x1 x2 x2a x1a x2b)
  from 2(2,3) have "length (stdin x2) < length (stdin c)"
    using read_guess_shortens [of rt _ x2a x2]
    by (metis stdin_print_end stdin_show_life_hearts)
  moreover from 2(4) have "stdin x2b = stdin x2"
    using stdin_turn [of x2a s x2] by (metis snd_conv)
  ultimately show ?case by simp
qed

declare main_loop.simps [simp del]

text \<open>
  Lines 145 to 165: a round starts. \<open>target\<close> is the number
  \<open>random.randint(0, 100)\<close> drew; 61 is the equals sign.
\<close>

definition new_game :: "runtime \<Rightarrow> int \<Rightarrow> console \<Rightarrow> (py_error + session) \<times> console" where
  "new_game rt target c =
     (case get_valid_input rt (lit ''Normal (0) or Hard (1): '') [lit ''0'', lit ''1'']
             (print (10 # lit ''Select Difficulty:'')
               (print (replicate 40 61)
                 (print (lit ''New Game Started!'')
                   (print (10 # replicate 40 61) c)))) of
        (Inl e, c') \<Rightarrow> (Inl e, c')
      | (Inr difficulty_input, c') \<Rightarrow>
          (case select_difficulty difficulty_input c' of
             (difficulty, c'') \<Rightarrow>
               (Inr \<lparr>target_number = target,
                     remaining_attempts = Difficulty_value difficulty,
                     game_state = PLAYING\<rparr>,
                print (lit ''You have '' @ str_int (Difficulty_value difficulty) @
                       lit '' attempts.'')
                  (print (10 # lit ''Guess the number between 0 and 100!'') c''))))"

text \<open>Lines 193 to 201: the result is shown and the player is asked for another round.\<close>

definition end_game :: "runtime \<Rightarrow> session \<Rightarrow> console \<Rightarrow> (py_error + pystr) \<times> console" where
  "end_game rt s c =
     get_valid_input rt (10 # lit ''Would you like to play again? (y/n): '')
       [lit ''y'', lit ''n'']
       (print (replicate 40 61)
         (show_game_result (target_number s) (game_state s)
           (print (10 # replicate 40 61) c)))"

text \<open>Lines 145 to 201: the body of the outer loop, one whole round.\<close>

definition play_round :: "runtime \<Rightarrow> int \<Rightarrow> console \<Rightarrow> (py_error + pystr) \<times> console" where
  "play_round rt target c =
     (case new_game rt target c of
        (Inl e, c') \<Rightarrow> (Inl e, c')
      | (Inr s, c') \<Rightarrow>
          (case main_loop rt s c' of
             (Inl e, c'') \<Rightarrow> (Inl e, c'')
           | (Inr s', c'') \<Rightarrow> end_game rt s' c''))"

text \<open>
  The outer loop of \<open>run_game\<close>, lines 144 to 201, and \<open>run_game\<close> itself.
  \<open>draws k\<close> is the number \<open>random.randint\<close> returns in round \<open>k\<close>. Every round
  that ends without an error has read at least one line, which is why the loop ends.
\<close>

lemma get_valid_input_shortens:
  "get_valid_input rt p v c = (Inr x, c') \<Longrightarrow> length (stdin c') < length (stdin c)"
proof (induction rt p v c rule: get_valid_input.induct)
  case (1 rt p v c)
  obtain r c1 where i: "input p c = (r, c1)" by (cases "input p c")
  show ?case
  proof (cases r)
    case (Inl e)
    with i "1.prems" show ?thesis by (simp add: get_valid_input.simps [of rt p v c])
  next
    case (Inr line)
    with i have less: "length (stdin c1) < length (stdin c)" by (simp add: input_shortens)
    show ?thesis
    proof (cases "lower rt (strip line) \<in> set v")
      case True
      with i Inr "1.prems" less show ?thesis
        by (simp add: get_valid_input.simps [of rt p v c])
    next
      case False
      let ?c2 = "print (lit ''Invalid input. Please choose from: '' @ join (lit '', '') v) c1"
      from i Inr False "1.prems" have "get_valid_input rt p v ?c2 = (Inr x, c')"
        by (simp add: get_valid_input.simps [of rt p v c])
      from "1.IH" [OF i [symmetric] Inr refl False this] less show ?thesis by simp
    qed
  qed
qed

lemma get_user_guess_stdin_le:
  "length (stdin (snd (get_user_guess rt c))) \<le> length (stdin c)"
  by (simp add: get_user_guess_def input_def split: list.splits option.splits)

lemma read_guess_stdin_le: "length (stdin (snd (read_guess rt c))) \<le> length (stdin c)"
proof (induction rt c rule: read_guess.induct)
  case (1 rt c)
  obtain r c1 where g: "get_user_guess rt c = (r, c1)" by (cases "get_user_guess rt c")
  with get_user_guess_stdin_le [of rt c] have le: "length (stdin c1) \<le> length (stdin c)"
    by simp
  show ?case
  proof (cases r)
    case (Inl e)
    with g le show ?thesis by (simp add: read_guess.simps [of rt c])
  next
    case (Inr v)
    show ?thesis
    proof (cases v)
      case None
      with "1.IH" [OF g [symmetric] Inr None] g Inr le show ?thesis
        by (simp add: read_guess.simps [of rt c])
    next
      case (Some x)
      with g Inr le show ?thesis by (simp add: read_guess.simps [of rt c])
    qed
  qed
qed

lemma main_loop_terminal: "game_state s \<noteq> PLAYING \<Longrightarrow> main_loop rt s c = (Inr s, c)"
  by (simp add: main_loop.simps [of rt s c])

lemma main_loop_step:
  "game_state s = PLAYING \<Longrightarrow>
   read_guess rt (show_life_hearts (remaining_attempts s)
                    (print_end (10 # lit ''Attempts remaining: '') [] c)) = (Inr g, c') \<Longrightarrow>
   main_loop rt s c = main_loop rt (fst (turn g s c')) (snd (turn g s c'))"
  by (simp add: main_loop.simps [of rt s c] split: prod.splits)

lemma main_loop_eof:
  "game_state s = PLAYING \<Longrightarrow>
   read_guess rt (show_life_hearts (remaining_attempts s)
                    (print_end (10 # lit ''Attempts remaining: '') [] c)) = (Inl e, c') \<Longrightarrow>
   main_loop rt s c = (Inl e, c')"
  by (simp add: main_loop.simps [of rt s c])

lemma main_loop_stdin_le: "length (stdin (snd (main_loop rt s c))) \<le> length (stdin c)"
proof (induction rt s c rule: main_loop.induct)
  case (1 rt s c)
  show ?case
  proof (cases "game_state s = PLAYING")
    case False
    then show ?thesis by (simp add: main_loop_terminal)
  next
    case True
    let ?h = "show_life_hearts (remaining_attempts s)
                (print_end (10 # lit ''Attempts remaining: '') [] c)"
    obtain r d where rg: "read_guess rt ?h = (r, d)" by (cases "read_guess rt ?h")
    from read_guess_stdin_le [of rt ?h] rg have le: "length (stdin d) \<le> length (stdin c)"
      by simp
    show ?thesis
    proof (cases r)
      case (Inl e)
      with True rg le show ?thesis by (simp add: main_loop_eof del: lit_Cons)
    next
      case (Inr g)
      obtain s3 c3 where t: "turn g s d = (s3, c3)" by (cases "turn g s d")
      from t stdin_turn [of g s d] have "stdin c3 = stdin d" by simp
      with "1.IH" [OF True rg [symmetric] Inr t [symmetric]] le True rg Inr t show ?thesis
        by (simp add: main_loop_step del: lit_Cons)
    qed
  qed
qed

lemma stdin_show_game_result [simp]: "stdin (show_game_result t st c) = stdin c"
  by (simp add: show_game_result_def)

lemma new_game_shortens:
  "new_game rt t c = (Inr s, c') \<Longrightarrow> length (stdin c') < length (stdin c)"
proof -
  assume a: "new_game rt t c = (Inr s, c')"
  let ?c1 = "print (10 # lit ''Select Difficulty:'')
               (print (replicate 40 61)
                 (print (lit ''New Game Started!'')
                   (print (10 # replicate 40 61) c)))"
  let ?g = "get_valid_input rt (lit ''Normal (0) or Hard (1): '') [lit ''0'', lit ''1''] ?c1"
  obtain r c2 where g: "?g = (r, c2)" by (cases ?g)
  show ?thesis
  proof (cases r)
    case (Inl e)
    with a g show ?thesis by (simp add: new_game_def del: lit_Cons)
  next
    case (Inr x)
    with g have "?g = (Inr x, c2)" by simp
    from get_valid_input_shortens [OF this]
    have "length (stdin c2) < length (stdin ?c1)" .
    moreover from a g Inr have "stdin c' = stdin c2"
      by (auto simp: new_game_def select_difficulty_def simp del: lit_Cons split: if_splits)
    ultimately show ?thesis by simp
  qed
qed

lemma play_round_shortens:
  "play_round rt t c = (Inr x, c') \<Longrightarrow> length (stdin c') < length (stdin c)"
proof -
  assume a: "play_round rt t c = (Inr x, c')"
  obtain r1 c1 where n: "new_game rt t c = (r1, c1)" by (cases "new_game rt t c")
  show ?thesis
  proof (cases r1)
    case (Inl e)
    with a n show ?thesis by (simp add: play_round_def)
  next
    case (Inr s)
    with n have l1: "length (stdin c1) < length (stdin c)" by (simp add: new_game_shortens)
    obtain r2 c2 where m: "main_loop rt s c1 = (r2, c2)" by (cases "main_loop rt s c1")
    from main_loop_stdin_le [of rt s c1] m have l2: "length (stdin c2) \<le> length (stdin c1)"
      by simp
    show ?thesis
    proof (cases r2)
      case (Inl e)
      with a n Inr m show ?thesis by (simp add: play_round_def)
    next
      case s': (Inr s')
      with a n Inr m have "end_game rt s' c2 = (Inr x, c')" by (simp add: play_round_def)
      from get_valid_input_shortens [OF this [unfolded end_game_def]]
      have "length (stdin c') < length (stdin c2)" by simp
      with l1 l2 show ?thesis by simp
    qed
  qed
qed

function run_loop ::
  "runtime \<Rightarrow> (nat \<Rightarrow> int) \<Rightarrow> nat \<Rightarrow> pystr \<Rightarrow> console \<Rightarrow> (py_error + unit) \<times> console" where
  "run_loop rt draws k play_again c =
     (if play_again = lit ''y'' then
        (case play_round rt (draws k) c of
           (Inl e, c') \<Rightarrow> (Inl e, c')
         | (Inr answer, c') \<Rightarrow> run_loop rt draws (Suc k) answer c')
      else (Inr (), c))"
  by pat_completeness auto
termination
  by (relation "measure (\<lambda>(rt, draws, k, play_again, c). length (stdin c))")
     (auto dest: play_round_shortens [OF sym])

declare run_loop.simps [simp del]

definition run_game ::
  "runtime \<Rightarrow> (nat \<Rightarrow> int) \<Rightarrow> console \<Rightarrow> (py_error + unit) \<times> console" where
  "run_game rt draws c =
     (case run_loop rt draws 0 (lit ''y'')
             (print (replicate 40 61)
               (print (lit ''Welcome to the Number Guessing Game!'')
                 (print (replicate 40 61) c))) of
        (Inl e, c') \<Rightarrow> (Inl e, c')
      | (Inr u, c') \<Rightarrow>
          (Inr (),
           print (replicate 40 61)
             (print (lit ''Thanks for playing! Goodbye! '' @ [0xF0, 0x178, 0x2018, 0x2039])
               (print (10 # replicate 40 61) c'))))"

subsection \<open>Notions the statements use\<close>

text \<open>
  The texts the module prints, under names. Each is the literal of the source with the
  line end \<open>print\<close> adds: line 34, the prompts of lines 124 and 199, lines 130 and
  126, lines 110 and 113; \<open>bar\<close> is the forty equals signs of lines 193 and 195.
\<close>

definition invalid_option_message :: "pystr list \<Rightarrow> pystr" where
  "invalid_option_message valid_options =
     lit ''Invalid input. Please choose from: '' @ join (lit '', '') valid_options @ [10]"

definition guess_prompt :: pystr where
  "guess_prompt = lit ''Enter your guess (0-100): ''"

definition replay_prompt :: pystr where
  "replay_prompt = 10 # lit ''Would you like to play again? (y/n): ''"

definition not_integer_message :: pystr where
  "not_integer_message = lit ''Invalid input. Please enter a valid integer.'' @ [10]"

definition out_of_range_message :: pystr where
  "out_of_range_message = lit ''Please enter a number between 0 and 100.'' @ [10]"

definition win_message :: pystr where
  "win_message = lit ''Congratulations! You Win! '' @ [0xF0, 0x178, 0x17D, 0x2030, 10]"

definition lose_message :: pystr where
  "lose_message = lit ''You Lose! Better luck next time! '' @ [0xF0, 0x178, 0x2019, 0x201D, 10]"

definition bar :: pystr where
  "bar = replicate 40 61 @ [10]"

text \<open>What \<open>show_game_result\<close> prints for the state a round is in.\<close>

definition result_text :: "session \<Rightarrow> pystr" where
  "result_text s =
     (case game_state s of
        PLAYING \<Rightarrow> []
      | WON \<Rightarrow> win_message
      | LOST \<Rightarrow>
          lit ''The correct number was: '' @ str_int (target_number s) @ [10] @ lose_message)"

text \<open>
  A line \<open>get_user_guess\<close> turns down: \<open>int\<close> raises on it, or its number is outside
  0 to 100; and the message printed for it.
\<close>

definition rejected :: "runtime \<Rightarrow> pystr \<Rightarrow> bool" where
  "rejected rt line = (case py_int rt line of None \<Rightarrow> True | Some g \<Rightarrow> g < 0 \<or> 100 < g)"

definition rejection_message :: "runtime \<Rightarrow> pystr \<Rightarrow> pystr" where
  "rejection_message rt line =
     (case py_int rt line of None \<Rightarrow> not_integer_message | Some g \<Rightarrow> out_of_range_message)"

text \<open>A line that is a guess in range and not the target.\<close>

definition wrong_guess :: "runtime \<Rightarrow> int \<Rightarrow> pystr \<Rightarrow> bool" where
  "wrong_guess rt target line =
     (case py_int rt line of
        None \<Rightarrow> False
      | Some g \<Rightarrow> 0 \<le> g \<and> g \<le> 100 \<and> g \<noteq> target)"

text \<open>
  The values the variables of a round can take: a round starts with what \<open>new_game\<close>
  returns for a drawn number from 0 to 100, and each pass of the loop of lines 168 to 190,
  entered only while the state is \<open>PLAYING\<close>, applies \<open>turn\<close> to a guess that
  \<open>read_guess\<close> returned.
\<close>

inductive reachable :: "runtime \<Rightarrow> session \<Rightarrow> bool" for rt :: runtime where
  start: "0 \<le> t \<Longrightarrow> t \<le> 100 \<Longrightarrow> new_game rt t c = (Inr s, c') \<Longrightarrow> reachable rt s"
| step: "reachable rt s \<Longrightarrow> game_state s = PLAYING \<Longrightarrow> read_guess rt c = (Inr g, c') \<Longrightarrow>
         reachable rt (fst (turn g s c'))"

section \<open>Lemmas\<close>

subsection \<open>One pass of each loop\<close>

lemma check_guess_correct [simp]: "(check_guess t g = lit ''correct'') = (g = t)"
  by (simp add: check_guess_def)

lemma check_guess_too_high [simp]: "(check_guess t g = lit ''too_high'') = (t < g)"
  by (simp add: check_guess_def)

lemma turn_correct: "g = target_number s \<Longrightarrow> fst (turn g s c) = s\<lparr>game_state := WON\<rparr>"
  by (simp add: turn_def del: lit_Cons)

lemma turn_last:
  "g \<noteq> target_number s \<Longrightarrow> remaining_attempts s = 1 \<Longrightarrow>
   fst (turn g s c) = s\<lparr>remaining_attempts := 0, game_state := LOST\<rparr>"
  by (simp add: turn_def Let_def del: lit_Cons)

lemma turn_wrong:
  "g \<noteq> target_number s \<Longrightarrow> remaining_attempts s \<noteq> 1 \<Longrightarrow>
   fst (turn g s c) = s\<lparr>remaining_attempts := remaining_attempts s - 1\<rparr>"
  by (simp add: turn_def Let_def del: lit_Cons)

lemma turn_session_screen: "fst (turn g s c2) = fst (turn g s c1)"
  by (simp add: turn_def Let_def del: lit_Cons)

lemma get_valid_input_eof:
  "stdin c = [] \<Longrightarrow>
   get_valid_input rt p v c = (Inl EOFError, c\<lparr>stdout := stdout c @ p\<rparr>)"
  by (simp add: get_valid_input.simps [of rt p v c] input_def print_end_def)

lemma get_valid_input_accept:
  "stdin c = line # rest \<Longrightarrow> lower rt (strip line) \<in> set v \<Longrightarrow>
   get_valid_input rt p v c =
     (Inr (lower rt (strip line)), c\<lparr>stdin := rest, stdout := stdout c @ p\<rparr>)"
  by (simp add: get_valid_input.simps [of rt p v c] input_def print_end_def)

lemma get_valid_input_reject:
  "stdin c = line # rest \<Longrightarrow> lower rt (strip line) \<notin> set v \<Longrightarrow>
   get_valid_input rt p v c =
     get_valid_input rt p v
       (c\<lparr>stdin := rest, stdout := stdout c @ p @ invalid_option_message v\<rparr>)"
  by (simp add: get_valid_input.simps [of rt p v c] input_def print_end_def print_def
        invalid_option_message_def)

lemma get_user_guess_eof:
  "stdin c = [] \<Longrightarrow>
   get_user_guess rt c = (Inl EOFError, c\<lparr>stdout := stdout c @ guess_prompt\<rparr>)"
  by (simp add: get_user_guess_def input_def print_end_def guess_prompt_def)

lemma get_user_guess_malformed:
  "stdin c = line # rest \<Longrightarrow> py_int rt line = None \<Longrightarrow>
   get_user_guess rt c =
     (Inr None, c\<lparr>stdin := rest, stdout := stdout c @ guess_prompt @ not_integer_message\<rparr>)"
  by (simp add: get_user_guess_def input_def print_end_def print_def guess_prompt_def
        not_integer_message_def)

lemma get_user_guess_out_of_range:
  "stdin c = line # rest \<Longrightarrow> py_int rt line = Some g \<Longrightarrow> g < 0 \<or> 100 < g \<Longrightarrow>
   get_user_guess rt c =
     (Inr None, c\<lparr>stdin := rest, stdout := stdout c @ guess_prompt @ out_of_range_message\<rparr>)"
  by (auto simp: get_user_guess_def input_def print_end_def print_def guess_prompt_def
        out_of_range_message_def validate_guess_range_def)

lemma get_user_guess_accept:
  "stdin c = line # rest \<Longrightarrow> py_int rt line = Some g \<Longrightarrow> 0 \<le> g \<Longrightarrow> g \<le> 100 \<Longrightarrow>
   get_user_guess rt c =
     (Inr (Some g), c\<lparr>stdin := rest, stdout := stdout c @ guess_prompt\<rparr>)"
  by (simp add: get_user_guess_def input_def print_end_def guess_prompt_def
        validate_guess_range_def)

lemma get_user_guess_rejected:
  "stdin c = line # rest \<Longrightarrow> rejected rt line \<Longrightarrow>
   get_user_guess rt c =
     (Inr None,
      c\<lparr>stdin := rest, stdout := stdout c @ guess_prompt @ rejection_message rt line\<rparr>)"
  by (cases "py_int rt line")
     (simp_all add: rejected_def rejection_message_def get_user_guess_malformed
        get_user_guess_out_of_range)

lemma get_user_guess_accepted_iff:
  "stdin c = line # rest \<Longrightarrow>
   fst (get_user_guess rt c) = Inr (Some g) \<longleftrightarrow>
   py_int rt line = Some g \<and> 0 \<le> g \<and> g \<le> 100"
  by (cases "py_int rt line"; cases "rejected rt line")
     (auto simp: rejected_def get_user_guess_malformed get_user_guess_out_of_range
        get_user_guess_accept)

lemma not_rejected:
  "\<not> rejected rt line \<Longrightarrow> \<exists>g. py_int rt line = Some g \<and> 0 \<le> g \<and> g \<le> 100"
  by (cases "py_int rt line") (auto simp: rejected_def)

lemma wrong_guessE:
  "wrong_guess rt t line \<Longrightarrow>
   \<exists>g. py_int rt line = Some g \<and> 0 \<le> g \<and> g \<le> 100 \<and> g \<noteq> t"
  by (cases "py_int rt line") (auto simp: wrong_guess_def)

lemma read_guess_eof:
  "stdin c = [] \<Longrightarrow>
   read_guess rt c = (Inl EOFError, c\<lparr>stdout := stdout c @ guess_prompt\<rparr>)"
  by (simp add: read_guess.simps [of rt c] get_user_guess_eof)

lemma read_guess_rejected:
  "stdin c = line # rest \<Longrightarrow> rejected rt line \<Longrightarrow>
   read_guess rt c =
     read_guess rt
       (c\<lparr>stdin := rest, stdout := stdout c @ guess_prompt @ rejection_message rt line\<rparr>)"
  by (simp add: read_guess.simps [of rt c] get_user_guess_rejected)

lemma read_guess_accept:
  "stdin c = line # rest \<Longrightarrow> py_int rt line = Some g \<Longrightarrow> 0 \<le> g \<Longrightarrow> g \<le> 100 \<Longrightarrow>
   read_guess rt c = (Inr g, c\<lparr>stdin := rest, stdout := stdout c @ guess_prompt\<rparr>)"
  by (simp add: read_guess.simps [of rt c] get_user_guess_accept)

subsection \<open>The option prompt\<close>

lemma get_valid_input_member:
  "get_valid_input rt p v c = (Inr x, c') \<Longrightarrow> x \<in> set v"
proof (induction "stdin c" arbitrary: c)
  case Nil
  then show ?case by (simp add: get_valid_input_eof)
next
  case (Cons line rest)
  show ?case
  proof (cases "lower rt (strip line) \<in> set v")
    case True
    with Cons.hyps(2) Cons.prems show ?thesis
      by (simp add: get_valid_input_accept [OF Cons.hyps(2) [symmetric]])
  next
    case False
    let ?c1 = "c\<lparr>stdin := rest, stdout := stdout c @ p @ invalid_option_message v\<rparr>"
    from False Cons.prems have "get_valid_input rt p v ?c1 = (Inr x, c')"
      by (simp add: get_valid_input_reject [OF Cons.hyps(2) [symmetric]])
    moreover have "rest = stdin ?c1" by simp
    ultimately show ?thesis using Cons.hyps(1) by blast
  qed
qed

lemma get_valid_input_skip:
  "\<forall>l \<in> set bads. lower rt (strip l) \<notin> set v \<Longrightarrow> stdin c = bads @ rest \<Longrightarrow>
   get_valid_input rt p v c =
     get_valid_input rt p v
       (c\<lparr>stdin := rest,
          stdout := stdout c @ concat (replicate (length bads) (p @ invalid_option_message v))\<rparr>)"
proof (induction bads arbitrary: c)
  case Nil
  then have "c\<lparr>stdin := rest, stdout := stdout c\<rparr> = c" by simp
  then show ?case by simp
next
  case (Cons l ls)
  let ?c1 = "c\<lparr>stdin := ls @ rest, stdout := stdout c @ p @ invalid_option_message v\<rparr>"
  from Cons.prems have "get_valid_input rt p v c = get_valid_input rt p v ?c1"
    by (simp add: get_valid_input_reject)
  also from Cons.prems have "\<dots> = get_valid_input rt p v
       (?c1\<lparr>stdin := rest,
          stdout := stdout ?c1 @ concat (replicate (length ls) (p @ invalid_option_message v))\<rparr>)"
    by (intro Cons.IH) simp_all
  finally show ?case by simp
qed

lemma get_valid_input_returns_iff:
  "(\<exists>x. fst (get_valid_input rt p v c) = Inr x) \<longleftrightarrow>
   (\<exists>l \<in> set (stdin c). lower rt (strip l) \<in> set v)"
proof (induction "stdin c" arbitrary: c)
  case Nil
  then show ?case by (simp add: get_valid_input_eof [OF Nil [symmetric]])
next
  case (Cons line rest)
  show ?case
  proof (cases "lower rt (strip line) \<in> set v")
    case True
    with Cons.hyps(2) show ?thesis
      by (simp add: get_valid_input_accept [OF Cons.hyps(2) [symmetric]] del: ex_simps)
         (metis list.set_intros(1))
  next
    case False
    let ?c1 = "c\<lparr>stdin := rest, stdout := stdout c @ p @ invalid_option_message v\<rparr>"
    have "rest = stdin ?c1" by simp
    from Cons.hyps(1) [OF this] False Cons.hyps(2) [symmetric] show ?thesis
      by (simp add: get_valid_input_reject [OF Cons.hyps(2) [symmetric] False])
  qed
qed

text \<open>All that the option prompt writes is the prompt and the message, some number of times.\<close>

lemma get_valid_input_screen:
  "\<exists>k. stdout (snd (get_valid_input rt p v c)) =
        stdout c @ concat (replicate k (p @ invalid_option_message v)) @ p"
proof (induction "stdin c" arbitrary: c)
  case Nil
  then have "stdout (snd (get_valid_input rt p v c)) =
      stdout c @ concat (replicate 0 (p @ invalid_option_message v)) @ p"
    by (simp add: get_valid_input_eof)
  then show ?case ..
next
  case (Cons line rest)
  show ?case
  proof (cases "lower rt (strip line) \<in> set v")
    case True
    then have "stdout (snd (get_valid_input rt p v c)) =
        stdout c @ concat (replicate 0 (p @ invalid_option_message v)) @ p"
      by (simp add: get_valid_input_accept [OF Cons.hyps(2) [symmetric]])
    then show ?thesis ..
  next
    case False
    let ?c1 = "c\<lparr>stdin := rest, stdout := stdout c @ p @ invalid_option_message v\<rparr>"
    have "rest = stdin ?c1" by simp
    from Cons.hyps(1) [OF this] obtain k
      where "stdout (snd (get_valid_input rt p v ?c1)) =
        stdout ?c1 @ concat (replicate k (p @ invalid_option_message v)) @ p" ..
    then have "stdout (snd (get_valid_input rt p v c)) =
        stdout c @ concat (replicate (Suc k) (p @ invalid_option_message v)) @ p"
      by (simp add: get_valid_input_reject [OF Cons.hyps(2) [symmetric] False])
    then show ?thesis ..
  qed
qed

lemma end_game_answer: "end_game rt s c = (Inr x, c') \<Longrightarrow> x = lit ''y'' \<or> x = lit ''n''"
  using get_valid_input_member [of rt _ "[lit ''y'', lit ''n'']" _ x c']
  by (simp add: end_game_def)

lemma new_game_session:
  "new_game rt t c = (Inr s, c') \<Longrightarrow>
   target_number s = t \<and> game_state s = PLAYING \<and>
   (remaining_attempts s = 10 \<or> remaining_attempts s = 5)"
  by (auto simp: new_game_def select_difficulty_def simp del: lit_Cons
           split: prod.splits sum.splits if_splits)

lemma new_game_choice:
  "stdin c = line # rest \<Longrightarrow>
   lower rt (strip line) = lit ''0'' \<or> lower rt (strip line) = lit ''1'' \<Longrightarrow>
   fst (new_game rt t c) =
     Inr \<lparr>target_number = t,
          remaining_attempts = (if lower rt (strip line) = lit ''0'' then 10 else 5),
          game_state = PLAYING\<rparr> \<and>
   stdin (snd (new_game rt t c)) = rest"
proof -
  assume a: "stdin c = line # rest"
    and b: "lower rt (strip line) = lit ''0'' \<or> lower rt (strip line) = lit ''1''"
  let ?c1 = "print (10 # lit ''Select Difficulty:'')
               (print (replicate 40 61)
                 (print (lit ''New Game Started!'')
                   (print (10 # replicate 40 61) c)))"
  let ?p = "lit ''Normal (0) or Hard (1): ''"
  from a have "stdin ?c1 = line # rest" by simp
  moreover from b have "lower rt (strip line) \<in> set [lit ''0'', lit ''1'']" by auto
  ultimately have "get_valid_input rt ?p [lit ''0'', lit ''1''] ?c1 =
    (Inr (lower rt (strip line)), ?c1\<lparr>stdin := rest, stdout := stdout ?c1 @ ?p\<rparr>)"
    by (rule get_valid_input_accept)
  then show ?thesis using b
    by (auto simp: new_game_def select_difficulty_def)
qed

subsection \<open>White space and letter case in a guess\<close>

lemma strip_with_pad:
  assumes "\<forall>ch \<in> set a. sp ch" and "\<forall>ch \<in> set b. sp ch"
  shows "strip_with sp (a @ s @ b) = strip_with sp s"
proof -
  have l: "dropWhile sp (a @ s @ b) = dropWhile sp (s @ b)"
    by (intro dropWhile_append2) (use assms(1) in auto)
  show ?thesis
  proof (cases "\<forall>ch \<in> set s. sp ch")
    case True
    with assms(2) have h: "dropWhile sp (s @ b) = []" "dropWhile sp s = []" by auto
    show ?thesis by (simp only: strip_with_def l h)
  next
    case False
    then obtain x where "x \<in> set s" "\<not> sp x" by blast
    then have "dropWhile sp (s @ b) = dropWhile sp s @ b"
      by (rule dropWhile_append1)
    moreover
    have "dropWhile sp (rev b @ rev (dropWhile sp s)) = dropWhile sp (rev (dropWhile sp s))"
      by (intro dropWhile_append2) (use assms(2) in auto)
    ultimately show ?thesis using l by (simp add: strip_with_def)
  qed
qed

lemma to_ascii_space:
  "isspace ch \<Longrightarrow> ch \<notin> {28, 29, 30, 31} \<Longrightarrow> int_space (to_ascii rt ch)"
  by (auto simp: isspace_def int_space_def to_ascii_def)

lemma py_int_pad:
  assumes "\<forall>ch \<in> set (a @ b). isspace ch \<and> ch \<notin> {28, 29, 30, 31}"
  shows "py_int rt (a @ s @ b) = py_int rt s"
proof -
  from assms have "\<forall>ch \<in> set (map (to_ascii rt) a). int_space ch"
    and "\<forall>ch \<in> set (map (to_ascii rt) b). int_space ch"
    by (auto simp: to_ascii_space)
  then have "strip_with int_space (map (to_ascii rt) (a @ s @ b)) =
             strip_with int_space (map (to_ascii rt) s)"
    using strip_with_pad [of "map (to_ascii rt) a" int_space "map (to_ascii rt) b"
        "map (to_ascii rt) s"]
    by simp
  then show ?thesis by (simp only: py_int_def)
qed

lemma to_ascii_ascii: "list_all (\<lambda>ch. ch < 128) s \<Longrightarrow> map (to_ascii rt) s = s"
  by (induction s) (simp_all add: to_ascii_def)

lemma lower_ascii_ascii:
  "list_all (\<lambda>ch. ch < 128) s \<Longrightarrow> list_all (\<lambda>ch. ch < 128) (map lower_ascii s)"
  by (induction s) (simp_all add: lower_ascii_def)

lemma int_space_lower_ascii [simp]: "int_space (lower_ascii ch) = int_space ch"
  by (auto simp: int_space_def lower_ascii_def)

lemma isdigit_lower_ascii [simp]: "isdigit (lower_ascii ch) = isdigit ch"
  by (auto simp: isdigit_def lower_ascii_def)

lemma lower_ascii_digit [simp]: "isdigit ch \<Longrightarrow> lower_ascii ch = ch"
  by (simp add: isdigit_def lower_ascii_def)

lemma lower_ascii_marks [simp]:
  "lower_ascii ch = 95 \<longleftrightarrow> ch = 95" "lower_ascii ch = 45 \<longleftrightarrow> ch = 45"
  "lower_ascii ch = 43 \<longleftrightarrow> ch = 43"
  by (auto simp: lower_ascii_def)

lemma strip_with_lower_ascii:
  "strip_with int_space (map lower_ascii s) = map lower_ascii (strip_with int_space s)"
proof -
  have "dropWhile int_space (map lower_ascii xs) = map lower_ascii (dropWhile int_space xs)"
    for xs
    by (induction xs) simp_all
  then show ?thesis by (simp add: strip_with_def rev_map)
qed

lemma digits_acc_lower: "digits_acc a (map lower_ascii cs) = digits_acc a cs"
  by (induction a cs rule: digits_acc.induct) auto

lemma digits_lower: "digits (map lower_ascii cs) = digits cs"
  by (cases cs) (auto simp: digits_def digits_acc_lower)

lemma filter_isdigit_lower:
  "length (filter isdigit (map lower_ascii cs)) = length (filter isdigit cs)"
  by (induction cs) simp_all

lemma too_many_digits_lower: "too_many_digits rt (map lower_ascii cs) = too_many_digits rt cs"
  by (simp only: too_many_digits_def filter_isdigit_lower)

lemma py_int_lower_ascii:
  assumes "list_all (\<lambda>ch. ch < 128) s"
  shows "py_int rt (lower rt s) = py_int rt s"
proof -
  from assms have l: "lower rt s = map lower_ascii s" by (simp add: lower_def)
  from assms have a: "map (to_ascii rt) (map lower_ascii s) = map lower_ascii s"
    by (intro to_ascii_ascii lower_ascii_ascii)
  from assms have b: "map (to_ascii rt) s = s" by (rule to_ascii_ascii)
  let ?F = "\<lambda>t. case t of
        [] \<Rightarrow> None
      | ch # cs \<Rightarrow>
          (let body = (if ch = 45 \<or> ch = 43 then cs else ch # cs) in
           case digits body of
             None \<Rightarrow> None
           | Some v \<Rightarrow>
               if too_many_digits rt body then None
               else Some (if ch = 45 then - v else v))"
  have 1: "py_int rt (lower rt s) = ?F (map lower_ascii (strip_with int_space s))"
    by (simp only: py_int_def l a strip_with_lower_ascii)
  have 2: "py_int rt s = ?F (strip_with int_space s)"
    by (simp only: py_int_def b)
  have "?F (map lower_ascii t) = ?F t" for t
  proof (cases t)
    case Nil
    then show ?thesis by simp
  next
    case (Cons ch cs)
    have "digits (lower_ascii ch # map lower_ascii cs) = digits (ch # cs)"
      using digits_lower [of "ch # cs"] by simp
    moreover have "too_many_digits rt (lower_ascii ch # map lower_ascii cs) =
        too_many_digits rt (ch # cs)"
      using too_many_digits_lower [of rt "ch # cs"] by simp
    ultimately show ?thesis using Cons
      by (simp add: digits_lower too_many_digits_lower Let_def split: option.splits)
  qed
  with 1 2 show ?thesis by simp
qed

lemma get_user_guess_line:
  "stdin c = line # rest \<Longrightarrow> py_int rt line' = py_int rt line \<Longrightarrow>
   get_user_guess rt (c\<lparr>stdin := line' # rest\<rparr>) = get_user_guess rt c"
  by (simp add: get_user_guess_def input_def print_end_def)

subsection \<open>Lines that are turned down\<close>

lemma read_guess_skip:
  "\<forall>l \<in> set bads. rejected rt l \<Longrightarrow> stdin c = bads @ rest \<Longrightarrow>
   read_guess rt c =
     read_guess rt
       (c\<lparr>stdin := rest,
          stdout := stdout c @
            concat (map (\<lambda>l. guess_prompt @ rejection_message rt l) bads)\<rparr>)"
proof (induction bads arbitrary: c)
  case Nil
  then have "c\<lparr>stdin := rest, stdout := stdout c\<rparr> = c" by simp
  then show ?case by simp
next
  case (Cons l ls)
  let ?c1 = "c\<lparr>stdin := ls @ rest,
               stdout := stdout c @ guess_prompt @ rejection_message rt l\<rparr>"
  from Cons.prems have "read_guess rt c = read_guess rt ?c1"
    by (simp add: read_guess_rejected)
  also from Cons.prems have "\<dots> = read_guess rt
       (?c1\<lparr>stdin := rest,
          stdout := stdout ?c1 @
            concat (map (\<lambda>l. guess_prompt @ rejection_message rt l) ls)\<rparr>)"
    by (intro Cons.IH) simp_all
  finally show ?case by simp
qed

text \<open>What the loops return does not depend on what is on the screen.\<close>

lemma read_guess_screen:
  "stdin c2 = stdin c1 \<Longrightarrow>
   fst (read_guess rt c2) = fst (read_guess rt c1) \<and>
   stdin (snd (read_guess rt c2)) = stdin (snd (read_guess rt c1))"
proof (induction "stdin c1" arbitrary: c1 c2)
  case Nil
  then show ?case by (simp add: read_guess_eof)
next
  case (Cons line rest)
  from Cons.hyps(2) Cons.prems
  have s1: "stdin c1 = line # rest" and s2: "stdin c2 = line # rest"
    by simp_all
  show ?case
  proof (cases "rejected rt line")
    case True
    let ?d1 = "c1\<lparr>stdin := rest,
                   stdout := stdout c1 @ guess_prompt @ rejection_message rt line\<rparr>"
    let ?d2 = "c2\<lparr>stdin := rest,
                   stdout := stdout c2 @ guess_prompt @ rejection_message rt line\<rparr>"
    have "rest = stdin ?d1" and "stdin ?d2 = stdin ?d1" by simp_all
    from Cons.hyps(1) [OF this] show ?thesis
      by (simp add: read_guess_rejected [OF s1 True] read_guess_rejected [OF s2 True])
  next
    case False
    then obtain g where "py_int rt line = Some g" "0 \<le> g" "g \<le> 100"
      using not_rejected by blast
    then show ?thesis
      by (simp add: read_guess_accept [OF s1] read_guess_accept [OF s2])
  qed
qed

lemma main_loop_screen:
  "stdin c2 = stdin c1 \<Longrightarrow>
   fst (main_loop rt s c2) = fst (main_loop rt s c1) \<and>
   stdin (snd (main_loop rt s c2)) = stdin (snd (main_loop rt s c1))"
proof (induction rt s c1 arbitrary: c2 rule: main_loop.induct)
  case (1 rt s c1)
  show ?case
  proof (cases "game_state s = PLAYING")
    case False
    with "1.prems" show ?thesis by (simp add: main_loop_terminal)
  next
    case True
    let ?h1 = "show_life_hearts (remaining_attempts s)
                 (print_end (10 # lit ''Attempts remaining: '') [] c1)"
    let ?h2 = "show_life_hearts (remaining_attempts s)
                 (print_end (10 # lit ''Attempts remaining: '') [] c2)"
    obtain r1 d1 where r1: "read_guess rt ?h1 = (r1, d1)" by (cases "read_guess rt ?h1")
    obtain r2 d2 where r2: "read_guess rt ?h2 = (r2, d2)" by (cases "read_guess rt ?h2")
    from "1.prems" have "stdin ?h2 = stdin ?h1" by simp
    from read_guess_screen [OF this, of rt] r1 r2 have eq: "r2 = r1" "stdin d2 = stdin d1"
      by simp_all
    show ?thesis
    proof (cases r1)
      case (Inl e)
      from True r1 [unfolded Inl] have "main_loop rt s c1 = (Inl e, d1)"
        by (rule main_loop_eof)
      moreover from True r2 [unfolded eq(1) Inl] have "main_loop rt s c2 = (Inl e, d2)"
        by (rule main_loop_eof)
      ultimately show ?thesis using eq(2) by simp
    next
      case (Inr g)
      obtain s3 c3 where t1: "turn g s d1 = (s3, c3)" by (cases "turn g s d1")
      obtain s4 c4 where t2: "turn g s d2 = (s4, c4)" by (cases "turn g s d2")
      from t1 t2 turn_session_screen [of g s d2 d1] have s4: "s4 = s3" by simp
      from t1 t2 eq(2) stdin_turn [of g s d1] stdin_turn [of g s d2]
      have "stdin c4 = stdin c3" by simp
      from "1.IH" [OF True r1 [symmetric] Inr t1 [symmetric] this]
      have ih: "fst (main_loop rt s3 c4) = fst (main_loop rt s3 c3) \<and>
                stdin (snd (main_loop rt s3 c4)) = stdin (snd (main_loop rt s3 c3))" .
      from True r1 [unfolded Inr] have "main_loop rt s c1 = main_loop rt s3 c3"
        using t1 by (simp add: main_loop_step [of s rt c1 g d1])
      moreover from True r2 [unfolded eq(1) Inr] have "main_loop rt s c2 = main_loop rt s3 c4"
        using t2 s4 by (simp add: main_loop_step [of s rt c2 g d2])
      ultimately show ?thesis using ih by simp
    qed
  qed
qed

lemma main_loop_rejected_line:
  assumes "game_state s = PLAYING" and "stdin c = line # rest" and "rejected rt line"
  shows "fst (main_loop rt s c) = fst (main_loop rt s (c\<lparr>stdin := rest\<rparr>)) \<and>
         stdin (snd (main_loop rt s c)) = stdin (snd (main_loop rt s (c\<lparr>stdin := rest\<rparr>)))"
proof -
  let ?lab = "print_end (10 # lit ''Attempts remaining: '') []"
  let ?h = "show_life_hearts (remaining_attempts s) (?lab c)"
  let ?h' = "show_life_hearts (remaining_attempts s) (?lab (c\<lparr>stdin := rest\<rparr>))"
  let ?d = "?h\<lparr>stdin := rest,
               stdout := stdout ?h @ guess_prompt @ rejection_message rt line\<rparr>"
  from assms(2) have "stdin ?h = line # rest" by simp
  from read_guess_rejected [OF this assms(3)]
  have a: "read_guess rt ?h = read_guess rt ?d" .
  have "stdin ?d = stdin ?h'" by simp
  from read_guess_screen [OF this, of rt]
  have b: "fst (read_guess rt ?d) = fst (read_guess rt ?h')"
    "stdin (snd (read_guess rt ?d)) = stdin (snd (read_guess rt ?h'))" by simp_all
  obtain r1 d1 where r1: "read_guess rt ?h = (r1, d1)" by (cases "read_guess rt ?h")
  obtain r2 d2 where r2: "read_guess rt ?h' = (r2, d2)" by (cases "read_guess rt ?h'")
  have "fst (read_guess rt ?h) = fst (read_guess rt ?h')"
    and "stdin (snd (read_guess rt ?h)) = stdin (snd (read_guess rt ?h'))"
    by (simp_all only: a b)
  with r1 r2 have eq: "r2 = r1" "stdin d2 = stdin d1" by simp_all
  show ?thesis
  proof (cases r1)
    case (Inl e)
    from assms(1) r1 [unfolded Inl] have "main_loop rt s c = (Inl e, d1)"
      by (rule main_loop_eof)
    moreover from assms(1) r2 [unfolded eq(1) Inl]
    have "main_loop rt s (c\<lparr>stdin := rest\<rparr>) = (Inl e, d2)"
      by (rule main_loop_eof)
    ultimately show ?thesis using eq(2) by simp
  next
    case (Inr g)
    from eq(2) have "stdin (snd (turn g s d1)) = stdin (snd (turn g s d2))" by simp
    from main_loop_screen [OF this, of rt "fst (turn g s d1)"]
    have ms: "fst (main_loop rt (fst (turn g s d1)) (snd (turn g s d1))) =
              fst (main_loop rt (fst (turn g s d1)) (snd (turn g s d2))) \<and>
              stdin (snd (main_loop rt (fst (turn g s d1)) (snd (turn g s d1)))) =
              stdin (snd (main_loop rt (fst (turn g s d1)) (snd (turn g s d2))))" .
    from assms(1) r1 [unfolded Inr]
    have "main_loop rt s c = main_loop rt (fst (turn g s d1)) (snd (turn g s d1))"
      by (rule main_loop_step)
    moreover from assms(1) r2 [unfolded eq(1) Inr]
    have "main_loop rt s (c\<lparr>stdin := rest\<rparr>) =
          main_loop rt (fst (turn g s d2)) (snd (turn g s d2))"
      by (rule main_loop_step)
    ultimately show ?thesis
      using ms turn_session_screen [of g s d2 d1] by simp
  qed
qed

subsection \<open>The states of a round\<close>

lemma reachable_inv:
  "reachable rt s \<Longrightarrow>
   0 \<le> remaining_attempts s \<and> (game_state s = PLAYING \<longrightarrow> 1 \<le> remaining_attempts s)"
proof (induction rule: reachable.induct)
  case (start t c s c')
  then show ?case using new_game_session [of rt t c s c'] by auto
next
  case (step s c g c')
  then show ?case
    by (cases "g = target_number s"; cases "remaining_attempts s = 1")
       (simp_all add: turn_correct turn_last turn_wrong)
qed

lemma main_loop_final: "main_loop rt s c = (Inr s', c') \<Longrightarrow> game_state s' \<noteq> PLAYING"
proof (induction rt s c rule: main_loop.induct)
  case (1 rt s c)
  show ?case
  proof (cases "game_state s = PLAYING")
    case False
    with "1.prems" show ?thesis by (simp add: main_loop_terminal)
  next
    case True
    let ?c1 = "show_life_hearts (remaining_attempts s)
                 (print_end (10 # lit ''Attempts remaining: '') [] c)"
    obtain r c2 where rg: "read_guess rt ?c1 = (r, c2)" by (cases "read_guess rt ?c1")
    show ?thesis
    proof (cases r)
      case (Inl e)
      from True rg [unfolded Inl] have "main_loop rt s c = (Inl e, c2)"
        by (rule main_loop_eof)
      with "1.prems" show ?thesis by simp
    next
      case (Inr g)
      obtain s3 c3 where t: "turn g s c2 = (s3, c3)" by (cases "turn g s c2")
      from True rg [unfolded Inr] have "main_loop rt s c = main_loop rt s3 c3"
        using t by (simp add: main_loop_step [of s rt c g c2])
      with "1.prems" have ml: "main_loop rt s3 c3 = (Inr s', c')" by simp
      from "1.IH" [OF True rg [symmetric] Inr t [symmetric] ml] show ?thesis .
    qed
  qed
qed

text \<open>The loop of a round only passes through states that \<open>reachable\<close> holds of.\<close>

lemma main_loop_reachable:
  "main_loop rt s c = (Inr s', c') \<Longrightarrow> reachable rt s \<Longrightarrow> reachable rt s'"
proof (induction rt s c rule: main_loop.induct)
  case (1 rt s c)
  show ?case
  proof (cases "game_state s = PLAYING")
    case False
    with "1.prems" show ?thesis by (simp add: main_loop_terminal)
  next
    case True
    let ?c1 = "show_life_hearts (remaining_attempts s)
                 (print_end (10 # lit ''Attempts remaining: '') [] c)"
    obtain r c2 where rg: "read_guess rt ?c1 = (r, c2)" by (cases "read_guess rt ?c1")
    show ?thesis
    proof (cases r)
      case (Inl e)
      from True rg [unfolded Inl] have "main_loop rt s c = (Inl e, c2)"
        by (rule main_loop_eof)
      with "1.prems" show ?thesis by simp
    next
      case (Inr g)
      obtain s3 c3 where t: "turn g s c2 = (s3, c3)" by (cases "turn g s c2")
      from True rg [unfolded Inr] have "main_loop rt s c = main_loop rt s3 c3"
        using t by (simp add: main_loop_step [of s rt c g c2])
      with "1.prems" have ml: "main_loop rt s3 c3 = (Inr s', c')" by simp
      from "1.prems"(2) True rg [unfolded Inr] have "reachable rt (fst (turn g s c2))"
        by (rule reachable.step)
      with t have "reachable rt s3" by simp
      with "1.IH" [OF True rg [symmetric] Inr t [symmetric] ml] show ?thesis by simp
    qed
  qed
qed

lemma wrong_guesses_lose:
  "lines \<noteq> [] \<Longrightarrow> remaining_attempts s = int (length lines) \<Longrightarrow> game_state s = PLAYING \<Longrightarrow>
   \<forall>l \<in> set lines. wrong_guess rt (target_number s) l \<Longrightarrow> stdin c = lines @ rest \<Longrightarrow>
   fst (main_loop rt s c) = Inr (s\<lparr>remaining_attempts := 0, game_state := LOST\<rparr>) \<and>
   stdin (snd (main_loop rt s c)) = rest"
proof (induction lines arbitrary: s c)
  case Nil
  then show ?case by simp
next
  case (Cons l ls)
  let ?h = "show_life_hearts (remaining_attempts s)
              (print_end (10 # lit ''Attempts remaining: '') [] c)"
  from Cons.prems(4)
  obtain g where g: "py_int rt l = Some g" "0 \<le> g" "g \<le> 100" "g \<noteq> target_number s"
    using wrong_guessE [of rt "target_number s" l] by auto
  from Cons.prems(5) have "stdin ?h = l # (ls @ rest)" by simp
  from read_guess_accept [OF this g(1,2,3)]
  obtain d where d: "read_guess rt ?h = (Inr g, d)" "stdin d = ls @ rest" by simp
  from main_loop_step [OF Cons.prems(3) d(1)]
  have ml: "main_loop rt s c = main_loop rt (fst (turn g s d)) (snd (turn g s d))" .
  show ?case
  proof (cases "ls = []")
    case True
    with Cons.prems(2) have "remaining_attempts s = 1" by simp
    with g(4) have "fst (turn g s d) = s\<lparr>remaining_attempts := 0, game_state := LOST\<rparr>"
      by (simp add: turn_last)
    with ml d(2) True show ?thesis by (simp add: main_loop_terminal)
  next
    case False
    with Cons.prems(2) have "remaining_attempts s \<noteq> 1" by simp
    with g(4) have t: "fst (turn g s d) = s\<lparr>remaining_attempts := remaining_attempts s - 1\<rparr>"
      by (simp add: turn_wrong)
    have "fst (main_loop rt (fst (turn g s d)) (snd (turn g s d))) =
            Inr ((fst (turn g s d))\<lparr>remaining_attempts := 0, game_state := LOST\<rparr>) \<and>
          stdin (snd (main_loop rt (fst (turn g s d)) (snd (turn g s d)))) = rest"
      using False Cons.prems d(2) t by (intro Cons.IH) simp_all
    with ml t show ?thesis by simp
  qed
qed

subsection \<open>What is written on the screen\<close>

lemma funpow_print_end:
  "((print_end s [] ^^ k) c) = c\<lparr>stdout := stdout c @ concat (replicate k s)\<rparr>"
proof (induction k)
  case 0
  show ?case by simp
next
  case (Suc k)
  have "concat (replicate k s) @ s = s @ concat (replicate k s)"
    by (induction k) simp_all
  with Suc show ?case by (simp add: print_end_def)
qed

lemma show_life_hearts_screen:
  "show_life_hearts n c =
     c\<lparr>stdout := stdout c @ concat (replicate (nat n) [0xE2, 0xA4, 0x20]) @ [10]\<rparr>"
  by (simp add: show_life_hearts_def funpow_print_end print_def print_end_def)

lemma show_game_result_screen:
  "show_game_result (target_number s) (game_state s) c =
     c\<lparr>stdout := stdout c @ result_text s\<rparr>"
  by (cases "game_state s")
     (simp_all add: show_game_result_def result_text_def print_def print_end_def
        win_message_def lose_message_def)

lemma end_game_screen:
  "end_game rt s c =
     get_valid_input rt replay_prompt [lit ''y'', lit ''n'']
       (c\<lparr>stdout := stdout c @ [10] @ bar @ result_text s @ bar\<rparr>)"
  by (simp add: end_game_def show_game_result_screen print_def print_end_def
        replay_prompt_def bar_def)

lemma end_game_printed:
  "\<exists>k. stdout (snd (end_game rt s c)) =
        stdout c @ [10] @ bar @ result_text s @ bar @
        concat (replicate k
          (replay_prompt @ invalid_option_message [lit ''y'', lit ''n''])) @
        replay_prompt"
proof -
  let ?c1 = "c\<lparr>stdout := stdout c @ [10] @ bar @ result_text s @ bar\<rparr>"
  let ?v = "[lit ''y'', lit ''n'']"
  from get_valid_input_screen [of rt replay_prompt ?v ?c1]
  obtain k where "stdout (snd (get_valid_input rt replay_prompt ?v ?c1)) =
      stdout ?c1 @ concat (replicate k (replay_prompt @ invalid_option_message ?v)) @
      replay_prompt" ..
  then have "stdout (snd (end_game rt s c)) =
        stdout c @ [10] @ bar @ result_text s @ bar @
        concat (replicate k (replay_prompt @ invalid_option_message ?v)) @ replay_prompt"
    by (simp only: end_game_screen) simp
  then show ?thesis ..
qed

lemma str_nat_last: "str_nat n \<noteq> [] \<and> isdigit (last (str_nat n))"
proof -
  have "n mod 10 < 10" by simp
  then have "isdigit (48 + n mod 10)"
    by (simp add: isdigit_def)
  moreover have "n < 10 \<Longrightarrow> isdigit (48 + n)"
    by (simp add: isdigit_def)
  ultimately show ?thesis by (subst (1 2) str_nat.simps) simp
qed

lemma str_int_last: "str_int i \<noteq> [] \<and> isdigit (last (str_int i))"
  using str_nat_last by (simp add: str_int_def)

lemma no_digit_hides:
  assumes "\<forall>ch \<in> set out. \<not> isdigit ch"
  shows "out \<noteq> pre @ str_int t @ post"
proof
  assume a: "out = pre @ str_int t @ post"
  have "set (str_int t) \<subseteq> set out" by (subst a) auto
  moreover have "last (str_int t) \<in> set (str_int t)" using str_int_last by simp
  ultimately have "last (str_int t) \<in> set out" by blast
  with assms str_int_last show False by blast
qed

lemma end_texts_no_digit:
  "\<forall>ch \<in> set win_message. \<not> isdigit ch" "\<forall>ch \<in> set bar. \<not> isdigit ch"
  "\<forall>ch \<in> set replay_prompt. \<not> isdigit ch"
  "\<forall>ch \<in> set (invalid_option_message [lit ''y'', lit ''n'']). \<not> isdigit ch"
  by (simp_all add: win_message_def bar_def replay_prompt_def invalid_option_message_def
        isdigit_def)

lemma won_end_hides_target:
  assumes "game_state s = WON"
  shows "\<exists>out. stdout (snd (end_game rt s c)) = stdout c @ out \<and>
           (\<forall>pre post. out \<noteq> pre @ str_int t @ post)"
proof -
  let ?out = "\<lambda>k. [10] @ bar @ win_message @ bar @
        concat (replicate k
          (replay_prompt @ invalid_option_message [lit ''y'', lit ''n''])) @
        replay_prompt"
  from assms have r: "result_text s = win_message" by (simp add: result_text_def)
  from end_game_printed [of rt s c] obtain k
    where k: "stdout (snd (end_game rt s c)) = stdout c @ ?out k"
    unfolding r by auto
  have "\<not> isdigit 10" by (simp add: isdigit_def)
  with end_texts_no_digit have "\<forall>ch \<in> set (?out k). \<not> isdigit ch"
    by (auto split: if_splits)
  then have "\<forall>pre post. ?out k \<noteq> pre @ str_int t @ post"
    using no_digit_hides by blast
  with k show ?thesis by blast
qed

lemma lost_end_shows_target:
  assumes "game_state s = LOST"
  shows "\<exists>pre post. stdout (snd (end_game rt s c)) =
           stdout c @ pre @ lit ''The correct number was: '' @ str_int (target_number s) @
           [10] @ lose_message @ post"
proof -
  from end_game_printed [of rt s c] obtain k
    where k: "stdout (snd (end_game rt s c)) =
        stdout c @ [10] @ bar @ result_text s @ bar @
        concat (replicate k
          (replay_prompt @ invalid_option_message [lit ''y'', lit ''n''])) @
        replay_prompt" ..
  from assms have r: "result_text s =
      lit ''The correct number was: '' @ str_int (target_number s) @ [10] @ lose_message"
    by (simp add: result_text_def)
  have "stdout (snd (end_game rt s c)) =
      stdout c @ ([10] @ bar) @ lit ''The correct number was: '' @
      str_int (target_number s) @ [10] @ lose_message @
      (bar @ concat (replicate k
          (replay_prompt @ invalid_option_message [lit ''y'', lit ''n''])) @
       replay_prompt)"
    unfolding k r by (simp del: lit_Cons)
  then show ?thesis by blast
qed

subsection \<open>Runs on given inputs\<close>

lemma py_int_examples:
  "py_int rt (lit ''150'') = Some 150" "py_int rt (lit ''abc'') = None"
  "py_int rt (lit ''42'') = Some 42" "py_int rt [0x1C, 52, 50] = None"
  by (simp_all add: py_int_def strip_with_def int_space_def to_ascii_def digits_def
        isdigit_def digit_val_def too_many_digits_def)

lemma normalise_examples:
  "lower rt (strip (lit '' Y '')) = lit ''y''"
  "lower rt (strip (lit ''maybe'')) = lit ''maybe''"
  "lower rt (strip (lit '' 0 '')) = lit ''0''" "lower rt (strip (lit ''1'')) = lit ''1''"
  "lower rt (strip (lit ''0'')) = lit ''0''" "lower rt (strip (lit ''N'')) = lit ''n''"
  "lower rt (strip [0x1C, 52, 50]) = lit ''42''"
  by (simp_all add: lower_def strip_def strip_with_def isspace_def lower_ascii_def)

lemma new_game_example:
  "\<exists>c'. new_game rt 42 \<lparr>stdin = [lit '' 0 '', lit ''50''], stdout = []\<rparr> =
     (Inr \<lparr>target_number = 42, remaining_attempts = 10, game_state = PLAYING\<rparr>, c')"
proof -
  let ?c = "\<lparr>stdin = [lit '' 0 '', lit ''50''], stdout = []\<rparr>"
  have "stdin ?c = lit '' 0 '' # [lit ''50'']" by simp
  from new_game_choice [OF this, of rt 42]
  have "fst (new_game rt 42 ?c) =
     Inr \<lparr>target_number = 42, remaining_attempts = 10, game_state = PLAYING\<rparr>"
    by (simp add: normalise_examples [simplified])
  then show ?thesis by (cases "new_game rt 42 ?c") simp
qed

lemma reachable_example:
  "reachable rt \<lparr>target_number = 42, remaining_attempts = 10, game_state = PLAYING\<rparr>"
proof -
  from new_game_example obtain c'
    where "new_game rt 42 \<lparr>stdin = [lit '' 0 '', lit ''50''], stdout = []\<rparr> =
      (Inr \<lparr>target_number = 42, remaining_attempts = 10, game_state = PLAYING\<rparr>, c')" ..
  then show ?thesis by (rule reachable.start [rotated 2]) simp_all
qed

lemma end_game_example:
  "\<exists>c'. end_game rt \<lparr>target_number = 42, remaining_attempts = 0, game_state = LOST\<rparr>
          \<lparr>stdin = [lit ''N''], stdout = []\<rparr> = (Inr (lit ''n''), c')"
proof -
  let ?s = "\<lparr>target_number = 42, remaining_attempts = 0, game_state = LOST\<rparr>"
  let ?c = "\<lparr>stdin = [lit ''N''], stdout = []\<rparr>"
  let ?c1 = "?c\<lparr>stdout := stdout ?c @ [10] @ bar @ result_text ?s @ bar\<rparr>"
  have "stdin ?c1 = lit ''N'' # []" by simp
  moreover have "lower rt (strip (lit ''N'')) \<in> set [lit ''y'', lit ''n'']"
    by (simp add: normalise_examples [simplified])
  ultimately have "get_valid_input rt replay_prompt [lit ''y'', lit ''n''] ?c1 =
      (Inr (lower rt (strip (lit ''N''))), ?c1\<lparr>stdin := [], stdout := stdout ?c1 @ replay_prompt\<rparr>)"
    by (rule get_valid_input_accept)
  then have "fst (end_game rt ?s ?c) = Inr (lit ''n'')"
    by (simp only: end_game_screen normalise_examples fst_conv)
  then show ?thesis by (cases "end_game rt ?s ?c") simp
qed

lemma ten_lines_wrong:
  "\<forall>l \<in> set [lit ''50'', lit ''51'', lit ''52'', lit ''53'', lit ''54'', lit ''55'', lit ''56'',
              lit ''57'', lit ''58'', lit ''59''].
     \<exists>g. py_int rt l = Some g \<and> 0 \<le> g \<and> g \<le> 100 \<and> g \<noteq> 42"
  by (simp add: py_int_def strip_with_def int_space_def to_ascii_def digits_def
        isdigit_def digit_val_def too_many_digits_def)

lemma str_int_42: "str_int 42 = lit ''42''"
  by (simp add: str_int_def str_nat.simps)

lemma normalise_nbsp: "lower rt (strip [0xA0, 89, 0x3000]) = lit ''y''"
  by (simp add: lower_def strip_def strip_with_def isspace_def lower_ascii_def)

lemma lower_example: "lower rt (lit ''4A'') = lit ''4a''"
  by (simp add: lower_def lower_ascii_def)

section \<open>Properties\<close>

subsection \<open>The outcome of a guess\<close>

text \<open>
  C1. For every target \<open>t\<close> and every guess \<open>g\<close>, \<open>check_guess t g\<close> is \<open>correct\<close>
  exactly when \<open>g = t\<close>, \<open>too_high\<close> exactly when \<open>g > t\<close> and \<open>too_low\<close> exactly
  when \<open>g < t\<close>. The function is pure: it takes the two integers and returns the
  string, with no console in its type.
\<close>

theorem check_guess_outcome:
  "(check_guess t g = lit ''correct'' \<longleftrightarrow> g = t) \<and>
   (check_guess t g = lit ''too_high'' \<longleftrightarrow> g > t) \<and>
   (check_guess t g = lit ''too_low'' \<longleftrightarrow> g < t)"
  by (simp add: check_guess_def)

subsection \<open>One turn\<close>

text \<open>
  C2. One turn of the game is the step of a state machine. A correct guess sets the
  state to \<open>WON\<close> and changes nothing else, so the attempts stay as they were. A guess
  that is not correct takes one attempt away; the state becomes \<open>LOST\<close> exactly when
  the attempts reach 0, and is left as it was (\<open>PLAYING\<close>, inside the loop) otherwise.
  The target never changes. The loop of a round makes such a step from \<open>PLAYING\<close> for
  the guess it read, and from \<open>WON\<close> or \<open>LOST\<close> it returns at once: they are terminal,
  and there is no other transition.
\<close>

theorem turn_state_machine:
  "(g = target_number s \<longrightarrow> fst (turn g s c) = s\<lparr>game_state := WON\<rparr>) \<and>
   (g \<noteq> target_number s \<and> remaining_attempts s - 1 = 0 \<longrightarrow>
      fst (turn g s c) = s\<lparr>remaining_attempts := 0, game_state := LOST\<rparr>) \<and>
   (g \<noteq> target_number s \<and> remaining_attempts s - 1 \<noteq> 0 \<longrightarrow>
      fst (turn g s c) = s\<lparr>remaining_attempts := remaining_attempts s - 1\<rparr>) \<and>
   (game_state s = PLAYING \<and>
    read_guess rt (show_life_hearts (remaining_attempts s)
                    (print_end (10 # lit ''Attempts remaining: '') [] c)) = (Inr g, c') \<longrightarrow>
      main_loop rt s c = main_loop rt (fst (turn g s c')) (snd (turn g s c'))) \<and>
   (game_state s \<noteq> PLAYING \<longrightarrow> main_loop rt s c = (Inr s, c))"
proof -
  have "main_loop rt s c = main_loop rt (fst (turn g s c')) (snd (turn g s c'))"
    if "game_state s = PLAYING"
      and "read_guess rt (show_life_hearts (remaining_attempts s)
             (print_end (10 # lit ''Attempts remaining: '') [] c)) = (Inr g, c')"
    using that by (rule main_loop_step)
  then show ?thesis
    by (simp add: turn_correct turn_last turn_wrong main_loop_terminal del: lit_Cons)
qed

text \<open>
  With target 42 and ten attempts, the line \<open>42\<close> wins at once and the attempts are
  still ten; a wrong guess with one attempt left loses; a wrong guess with three left
  leaves two and the game goes on.
\<close>

theorem turn_state_machine_witness:
  "\<forall>rt.
     fst (main_loop rt \<lparr>target_number = 42, remaining_attempts = 10, game_state = PLAYING\<rparr>
            \<lparr>stdin = [lit ''42''], stdout = []\<rparr>) =
       Inr \<lparr>target_number = 42, remaining_attempts = 10, game_state = WON\<rparr> \<and>
     fst (turn 50 \<lparr>target_number = 42, remaining_attempts = 1, game_state = PLAYING\<rparr>
            \<lparr>stdin = [], stdout = []\<rparr>) =
       \<lparr>target_number = 42, remaining_attempts = 0, game_state = LOST\<rparr> \<and>
     fst (turn 50 \<lparr>target_number = 42, remaining_attempts = 3, game_state = PLAYING\<rparr>
            \<lparr>stdin = [], stdout = []\<rparr>) =
       \<lparr>target_number = 42, remaining_attempts = 2, game_state = PLAYING\<rparr>"
proof
  fix rt
  let ?s = "\<lparr>target_number = 42, remaining_attempts = 10, game_state = PLAYING\<rparr>"
  let ?c = "\<lparr>stdin = [lit ''42''], stdout = []\<rparr>"
  let ?e = "\<lparr>stdin = [], stdout = []\<rparr>"
  let ?h = "show_life_hearts (remaining_attempts ?s)
              (print_end (10 # lit ''Attempts remaining: '') [] ?c)"
  have "stdin ?h = [lit ''42'']" by simp
  from read_guess_accept [OF this py_int_examples(3), of rt]
  obtain c' where rg: "read_guess rt ?h = (Inr 42, c')" by simp
  have won: "fst (turn 42 ?s c') = ?s\<lparr>game_state := WON\<rparr>"
    using turn_state_machine [where g = 42 and s = ?s and c = c'] by simp
  have "game_state ?s = PLAYING \<and> read_guess rt ?h = (Inr 42, c')" using rg by simp
  with turn_state_machine [where g = 42 and s = ?s and c = ?c and c' = c' and rt = rt]
  have "main_loop rt ?s ?c = main_loop rt (fst (turn 42 ?s c')) (snd (turn 42 ?s c'))"
    by blast
  also have "\<dots> = (Inr (?s\<lparr>game_state := WON\<rparr>), snd (turn 42 ?s c'))"
    using turn_state_machine
      [where s = "?s\<lparr>game_state := WON\<rparr>" and c = "snd (turn 42 ?s c')" and rt = rt] won
    by simp
  finally have a: "fst (main_loop rt ?s ?c) =
      Inr \<lparr>target_number = 42, remaining_attempts = 10, game_state = WON\<rparr>"
    by simp
  show "fst (main_loop rt ?s ?c) =
       Inr \<lparr>target_number = 42, remaining_attempts = 10, game_state = WON\<rparr> \<and>
     fst (turn 50 \<lparr>target_number = 42, remaining_attempts = 1, game_state = PLAYING\<rparr> ?e) =
       \<lparr>target_number = 42, remaining_attempts = 0, game_state = LOST\<rparr> \<and>
     fst (turn 50 \<lparr>target_number = 42, remaining_attempts = 3, game_state = PLAYING\<rparr> ?e) =
       \<lparr>target_number = 42, remaining_attempts = 2, game_state = PLAYING\<rparr>"
    using a
      turn_state_machine
        [where g = 50 and c = ?e
           and s = "\<lparr>target_number = 42, remaining_attempts = 1, game_state = PLAYING\<rparr>"]
      turn_state_machine
        [where g = 50 and c = ?e
           and s = "\<lparr>target_number = 42, remaining_attempts = 3, game_state = PLAYING\<rparr>"]
    by simp
qed

text \<open>
  C3. In every state a round can reach, the attempts are not negative; a turn with a
  guess that is not correct takes exactly one attempt away, and when it is taken inside
  the loop (the state is \<open>PLAYING\<close>) the attempts are not negative afterwards either.
\<close>

theorem attempts_decrease:
  "reachable rt s \<Longrightarrow>
   0 \<le> remaining_attempts s \<and>
   (g \<noteq> target_number s \<longrightarrow>
      remaining_attempts (fst (turn g s c)) = remaining_attempts s - 1) \<and>
   (g \<noteq> target_number s \<and> game_state s = PLAYING \<longrightarrow>
      0 \<le> remaining_attempts (fst (turn g s c)))"
  using reachable_inv [of rt s]
  by (cases "remaining_attempts s = 1") (auto simp: turn_last turn_wrong)

theorem attempts_decrease_witness:
  "\<forall>rt.
     reachable rt \<lparr>target_number = 42, remaining_attempts = 10, game_state = PLAYING\<rparr> \<and>
     remaining_attempts
       (fst (turn 50 \<lparr>target_number = 42, remaining_attempts = 10, game_state = PLAYING\<rparr>
               \<lparr>stdin = [], stdout = []\<rparr>)) = 9"
proof
  fix rt
  show "reachable rt \<lparr>target_number = 42, remaining_attempts = 10, game_state = PLAYING\<rparr> \<and>
     remaining_attempts
       (fst (turn 50 \<lparr>target_number = 42, remaining_attempts = 10, game_state = PLAYING\<rparr>
               \<lparr>stdin = [], stdout = []\<rparr>)) = 9"
    using
      attempts_decrease
        [OF reachable_example [of rt], where g = 50 and c = "\<lparr>stdin = [], stdout = []\<rparr>"]
      reachable_example [of rt]
    by simp
qed

text \<open>
  C10. In every state a round can reach, \<open>PLAYING\<close> comes with at least one attempt.
  A round starts in \<open>PLAYING\<close> with 10 or 5 attempts, and a turn that brings the
  attempts to 0 by a wrong guess sets the state to \<open>LOST\<close> in the same step; so the
  loop, which asks for a guess only in \<open>PLAYING\<close>, never asks with no attempt left.
\<close>

theorem playing_attempts_positive:
  "(reachable rt s \<and> game_state s = PLAYING \<longrightarrow> 1 \<le> remaining_attempts s) \<and>
   (new_game rt t c = (Inr s0, c') \<longrightarrow>
      game_state s0 = PLAYING \<and> (remaining_attempts s0 = 10 \<or> remaining_attempts s0 = 5)) \<and>
   (g \<noteq> target_number s \<and> remaining_attempts (fst (turn g s c)) = 0 \<longrightarrow>
      game_state (fst (turn g s c)) = LOST)"
proof -
  have "g \<noteq> target_number s \<Longrightarrow> remaining_attempts (fst (turn g s c)) = 0 \<Longrightarrow>
        game_state (fst (turn g s c)) = LOST"
    by (cases "remaining_attempts s = 1") (simp_all add: turn_last turn_wrong)
  then show ?thesis using reachable_inv [of rt s] new_game_session [of rt t c s0 c'] by blast
qed

theorem playing_attempts_positive_witness:
  "\<forall>rt.
     reachable rt \<lparr>target_number = 42, remaining_attempts = 10, game_state = PLAYING\<rparr> \<and>
     1 \<le> remaining_attempts
           \<lparr>target_number = 42, remaining_attempts = 10, game_state = PLAYING\<rparr> \<and>
     (\<exists>c'. new_game rt 42 \<lparr>stdin = [lit '' 0 '', lit ''50''], stdout = []\<rparr> =
        (Inr \<lparr>target_number = 42, remaining_attempts = 10, game_state = PLAYING\<rparr>, c')) \<and>
     game_state
       (fst (turn 50 \<lparr>target_number = 42, remaining_attempts = 1, game_state = PLAYING\<rparr>
               \<lparr>stdin = [lit '' 0 '', lit ''50''], stdout = []\<rparr>)) = LOST"
proof
  fix rt
  let ?s = "\<lparr>target_number = 42, remaining_attempts = 10, game_state = PLAYING\<rparr>"
  let ?s1 = "\<lparr>target_number = 42, remaining_attempts = 1, game_state = PLAYING\<rparr>"
  let ?c = "\<lparr>stdin = [lit '' 0 '', lit ''50''], stdout = []\<rparr>"
  from new_game_example obtain c' where ng: "new_game rt 42 ?c = (Inr ?s, c')" ..
  have z: "remaining_attempts (fst (turn 50 ?s1 ?c)) = 0" by (simp add: turn_last)
  from playing_attempts_positive
         [where rt = rt and s = ?s and t = 42 and c = ?c and ?s0.0 = ?s and c' = c' and g = 42]
       reachable_example [of rt] ng
  have "1 \<le> remaining_attempts ?s \<and> game_state ?s = PLAYING" by simp
  moreover from playing_attempts_positive
         [where rt = rt and s = ?s1 and t = 42 and c = ?c and ?s0.0 = ?s and c' = c' and g = 50] z
  have "game_state (fst (turn 50 ?s1 ?c)) = LOST" by simp
  ultimately show "reachable rt ?s \<and> 1 \<le> remaining_attempts ?s \<and>
     (\<exists>c'. new_game rt 42 ?c = (Inr ?s, c')) \<and> game_state (fst (turn 50 ?s1 ?c)) = LOST"
    using reachable_example [of rt] ng by blast
qed

subsection \<open>The difficulty\<close>

text \<open>
  C4. On a choice from \<open>0\<close> and \<open>1\<close>, \<open>select_difficulty\<close> returns \<open>NORMAL\<close> for
  \<open>0\<close> and \<open>HARD\<close> for \<open>1\<close>; the attempts of \<open>NORMAL\<close> are 10 and those of
  \<open>HARD\<close> are 5; and a round whose first line is such a choice starts with the attempts
  of the difficulty chosen.
\<close>

theorem difficulty_budget:
  "fst (select_difficulty (lit ''0'') c) = NORMAL \<and>
   fst (select_difficulty (lit ''1'') c) = HARD \<and>
   Difficulty_value NORMAL = 10 \<and>
   Difficulty_value HARD = 5 \<and>
   (stdin c = line # rest \<and>
    (lower rt (strip line) = lit ''0'' \<or> lower rt (strip line) = lit ''1'') \<longrightarrow>
      fst (new_game rt t c) =
        Inr \<lparr>target_number = t,
             remaining_attempts =
               Difficulty_value (fst (select_difficulty (lower rt (strip line)) c)),
             game_state = PLAYING\<rparr>)"
  using new_game_choice [of c line rest rt t]
  by (auto simp: select_difficulty_def)

theorem difficulty_budget_witness:
  "\<forall>rt.
     fst (new_game rt 42 \<lparr>stdin = [lit '' 0 '', lit ''50''], stdout = []\<rparr>) =
       Inr \<lparr>target_number = 42, remaining_attempts = 10, game_state = PLAYING\<rparr> \<and>
     fst (new_game rt 42 \<lparr>stdin = [lit ''1'', lit ''50''], stdout = []\<rparr>) =
       Inr \<lparr>target_number = 42, remaining_attempts = 5, game_state = PLAYING\<rparr>"
proof
  fix rt
  show "fst (new_game rt 42 \<lparr>stdin = [lit '' 0 '', lit ''50''], stdout = []\<rparr>) =
       Inr \<lparr>target_number = 42, remaining_attempts = 10, game_state = PLAYING\<rparr> \<and>
     fst (new_game rt 42 \<lparr>stdin = [lit ''1'', lit ''50''], stdout = []\<rparr>) =
       Inr \<lparr>target_number = 42, remaining_attempts = 5, game_state = PLAYING\<rparr>"
    using
      difficulty_budget
        [where rt = rt and t = 42 and line = "lit '' 0 ''" and rest = "[lit ''50'']"
           and c = "\<lparr>stdin = [lit '' 0 '', lit ''50''], stdout = []\<rparr>"]
      difficulty_budget
        [where rt = rt and t = 42 and line = "lit ''1''" and rest = "[lit ''50'']"
           and c = "\<lparr>stdin = [lit ''1'', lit ''50''], stdout = []\<rparr>"]
    by (simp add: normalise_examples [simplified])
qed

text \<open>
  C9. \<open>select_difficulty\<close> returns \<open>NORMAL\<close> for the string \<open>0\<close> and for no other;
  every other string, in the set of choices or not, gives \<open>HARD\<close>. The function has no
  branch that turns a string down: its result is a \<open>Difficulty\<close>, never an error.
\<close>

theorem select_difficulty_default_hard:
  "(fst (select_difficulty x c) = NORMAL \<longleftrightarrow> x = lit ''0'') \<and>
   (x \<noteq> lit ''0'' \<longrightarrow> fst (select_difficulty x c) = HARD)"
  by (simp add: select_difficulty_def)

theorem select_difficulty_default_hard_witness:
  "fst (select_difficulty (lit ''2'') \<lparr>stdin = [], stdout = []\<rparr>) = HARD \<and>
   fst (select_difficulty (lit ''normal'') \<lparr>stdin = [], stdout = []\<rparr>) = HARD \<and>
   fst (select_difficulty [] \<lparr>stdin = [], stdout = []\<rparr>) = HARD"
  using select_difficulty_default_hard [of "lit ''2''" "\<lparr>stdin = [], stdout = []\<rparr>"]
    select_difficulty_default_hard [of "lit ''normal''" "\<lparr>stdin = [], stdout = []\<rparr>"]
    select_difficulty_default_hard [of "[]" "\<lparr>stdin = [], stdout = []\<rparr>"]
  by simp

subsection \<open>Guesses that are turned down\<close>

text \<open>
  C5. When the next line is \<open>line\<close>, \<open>get_user_guess\<close> returns the guess \<open>g\<close>
  exactly when \<open>int\<close> reads \<open>g\<close> from the line and \<open>0 \<le> g \<le> 100\<close>. A line that is
  not an integer, and a line whose integer is outside 0 to 100, both give \<open>None\<close>: the
  line is used up, the message for its kind is printed, the loop of lines 173 to 175 asks
  again, and the round ends as it would have without the line, so no attempt and nothing
  else of the round is lost.
\<close>

theorem rejected_guess_no_penalty:
  "stdin c = line # rest \<Longrightarrow>
   (fst (get_user_guess rt c) = Inr (Some g) \<longleftrightarrow>
      py_int rt line = Some g \<and> 0 \<le> g \<and> g \<le> 100) \<and>
   (py_int rt line = None \<or> (\<exists>k. py_int rt line = Some k \<and> (k < 0 \<or> 100 < k)) \<longrightarrow>
      get_user_guess rt c =
        (Inr None,
         c\<lparr>stdin := rest,
           stdout := stdout c @ guess_prompt @
             (if py_int rt line = None then not_integer_message
              else out_of_range_message)\<rparr>) \<and>
      read_guess rt c = read_guess rt (snd (get_user_guess rt c)) \<and>
      (game_state s = PLAYING \<longrightarrow>
         fst (main_loop rt s c) = fst (main_loop rt s (c\<lparr>stdin := rest\<rparr>)) \<and>
         stdin (snd (main_loop rt s c)) = stdin (snd (main_loop rt s (c\<lparr>stdin := rest\<rparr>)))))"
proof -
  assume a: "stdin c = line # rest"
  have "rejected rt line \<longleftrightarrow>
        py_int rt line = None \<or> (\<exists>k. py_int rt line = Some k \<and> (k < 0 \<or> 100 < k))"
    by (cases "py_int rt line") (simp_all add: rejected_def)
  moreover have "rejection_message rt line =
      (if py_int rt line = None then not_integer_message else out_of_range_message)"
    by (cases "py_int rt line") (simp_all add: rejection_message_def)
  moreover note get_user_guess_accepted_iff [OF a, of rt g]
    get_user_guess_rejected [OF a, of rt] read_guess_rejected [OF a, of rt]
    main_loop_rejected_line [OF _ a, of s rt]
  ultimately show ?thesis by simp
qed

text \<open>
  The lines \<open>150\<close> and \<open>abc\<close> before the winning line \<open>42\<close>; and the line \<open>42\<close>
  after the separator U+001C, which \<open>int\<close> does not read.
\<close>

theorem rejected_guess_no_penalty_witness:
  "\<forall>rt.
     py_int rt (lit ''150'') = Some 150 \<and> py_int rt (lit ''abc'') = None \<and>
     py_int rt [0x1C, 52, 50] = None \<and>
     fst (get_user_guess rt \<lparr>stdin = [lit ''150'', lit ''42''], stdout = []\<rparr>) = Inr None \<and>
     fst (get_user_guess rt \<lparr>stdin = [lit ''abc'', lit ''42''], stdout = []\<rparr>) = Inr None \<and>
     fst (get_user_guess rt \<lparr>stdin = [[0x1C, 52, 50], lit ''42''], stdout = []\<rparr>) = Inr None \<and>
     fst (get_user_guess rt \<lparr>stdin = [lit ''42''], stdout = []\<rparr>) = Inr (Some 42) \<and>
     fst (main_loop rt \<lparr>target_number = 42, remaining_attempts = 10, game_state = PLAYING\<rparr>
            \<lparr>stdin = [lit ''150'', lit ''42''], stdout = []\<rparr>) =
     fst (main_loop rt \<lparr>target_number = 42, remaining_attempts = 10, game_state = PLAYING\<rparr>
            \<lparr>stdin = [lit ''42''], stdout = []\<rparr>) \<and>
     fst (main_loop rt \<lparr>target_number = 42, remaining_attempts = 10, game_state = PLAYING\<rparr>
            \<lparr>stdin = [lit ''abc'', lit ''42''], stdout = []\<rparr>) =
     fst (main_loop rt \<lparr>target_number = 42, remaining_attempts = 10, game_state = PLAYING\<rparr>
            \<lparr>stdin = [lit ''42''], stdout = []\<rparr>)"
proof
  fix rt
  let ?s = "\<lparr>target_number = 42, remaining_attempts = 10, game_state = PLAYING\<rparr>"
  show "py_int rt (lit ''150'') = Some 150 \<and> py_int rt (lit ''abc'') = None \<and>
     py_int rt [0x1C, 52, 50] = None \<and>
     fst (get_user_guess rt \<lparr>stdin = [lit ''150'', lit ''42''], stdout = []\<rparr>) = Inr None \<and>
     fst (get_user_guess rt \<lparr>stdin = [lit ''abc'', lit ''42''], stdout = []\<rparr>) = Inr None \<and>
     fst (get_user_guess rt \<lparr>stdin = [[0x1C, 52, 50], lit ''42''], stdout = []\<rparr>) = Inr None \<and>
     fst (get_user_guess rt \<lparr>stdin = [lit ''42''], stdout = []\<rparr>) = Inr (Some 42) \<and>
     fst (main_loop rt ?s \<lparr>stdin = [lit ''150'', lit ''42''], stdout = []\<rparr>) =
     fst (main_loop rt ?s \<lparr>stdin = [lit ''42''], stdout = []\<rparr>) \<and>
     fst (main_loop rt ?s \<lparr>stdin = [lit ''abc'', lit ''42''], stdout = []\<rparr>) =
     fst (main_loop rt ?s \<lparr>stdin = [lit ''42''], stdout = []\<rparr>)"
    using
      rejected_guess_no_penalty
        [where rt = rt and s = ?s and g = 0 and line = "lit ''150''" and rest = "[lit ''42'']"
           and c = "\<lparr>stdin = [lit ''150'', lit ''42''], stdout = []\<rparr>"]
      rejected_guess_no_penalty
        [where rt = rt and s = ?s and g = 0 and line = "lit ''abc''" and rest = "[lit ''42'']"
           and c = "\<lparr>stdin = [lit ''abc'', lit ''42''], stdout = []\<rparr>"]
      rejected_guess_no_penalty
        [where rt = rt and s = ?s and g = 0 and line = "[0x1C, 52, 50]" and rest = "[lit ''42'']"
           and c = "\<lparr>stdin = [[0x1C, 52, 50], lit ''42''], stdout = []\<rparr>"]
      rejected_guess_no_penalty
        [where rt = rt and s = ?s and g = 42 and line = "lit ''42''" and rest = "[]"
           and c = "\<lparr>stdin = [lit ''42''], stdout = []\<rparr>"]
    by (simp add: py_int_examples [simplified])
qed

subsection \<open>Losing, and what is shown at the end\<close>

text \<open>
  C6. A round at \<open>NORMAL\<close> difficulty (its first line chooses \<open>0\<close>) in which the next
  ten lines are guesses in range that are all wrong ends in the state \<open>LOST\<close> with no
  attempt left, the ten lines used up; the round then goes on to \<open>end_game\<close> in that
  state, and what the round has written holds the line with the target followed by the
  losing message. The loop of a round only ever ends in \<open>WON\<close> or \<open>LOST\<close>. What
  \<open>end_game\<close> writes, from the bar to the last replay prompt, holds the line with the
  target when the state is \<open>LOST\<close>, and when the state is \<open>WON\<close> the numeral of the
  target occurs nowhere in it.
\<close>

theorem lost_round_shows_target:
  "(stdin c = choice # lines @ rest \<and> lower rt (strip choice) = lit ''0'' \<and>
    length lines = 10 \<and>
    (\<forall>l \<in> set lines. \<exists>g. py_int rt l = Some g \<and> 0 \<le> g \<and> g \<le> 100 \<and> g \<noteq> t) \<longrightarrow>
      fst (new_game rt t c) =
        Inr \<lparr>target_number = t, remaining_attempts = Difficulty_value NORMAL,
             game_state = PLAYING\<rparr> \<and>
      fst (main_loop rt \<lparr>target_number = t, remaining_attempts = Difficulty_value NORMAL,
                          game_state = PLAYING\<rparr> (snd (new_game rt t c))) =
        Inr \<lparr>target_number = t, remaining_attempts = 0, game_state = LOST\<rparr> \<and>
      stdin (snd (main_loop rt \<lparr>target_number = t,
                                remaining_attempts = Difficulty_value NORMAL,
                                game_state = PLAYING\<rparr> (snd (new_game rt t c)))) = rest \<and>
      play_round rt t c =
        end_game rt \<lparr>target_number = t, remaining_attempts = 0, game_state = LOST\<rparr>
          (snd (main_loop rt \<lparr>target_number = t,
                               remaining_attempts = Difficulty_value NORMAL,
                               game_state = PLAYING\<rparr> (snd (new_game rt t c)))) \<and>
      (\<exists>pre post. stdout (snd (play_round rt t c)) =
         pre @ lit ''The correct number was: '' @ str_int t @ [10] @ lose_message @ post)) \<and>
   (main_loop rt s c = (Inr s', c') \<longrightarrow> game_state s' = WON \<or> game_state s' = LOST) \<and>
   (game_state s = LOST \<longrightarrow>
      (\<exists>pre post. stdout (snd (end_game rt s c)) =
         stdout c @ pre @ lit ''The correct number was: '' @ str_int (target_number s) @
         [10] @ lose_message @ post)) \<and>
   (game_state s = WON \<longrightarrow>
      (\<exists>out. stdout (snd (end_game rt s c)) = stdout c @ out \<and>
         (\<forall>pre post. out \<noteq> pre @ str_int (target_number s) @ post)))"
proof -
  let ?s0 = "\<lparr>target_number = t, remaining_attempts = 10, game_state = PLAYING\<rparr>"
  let ?lost = "\<lparr>target_number = t, remaining_attempts = 0, game_state = LOST\<rparr>"
  let ?c2 = "snd (main_loop rt ?s0 (snd (new_game rt t c)))"
  have dv: "Difficulty_value NORMAL = 10" by simp
  have A: "stdin c = choice # lines @ rest \<and> lower rt (strip choice) = lit ''0'' \<and>
        length lines = 10 \<and>
        (\<forall>l \<in> set lines. \<exists>g. py_int rt l = Some g \<and> 0 \<le> g \<and> g \<le> 100 \<and> g \<noteq> t) \<longrightarrow>
        fst (new_game rt t c) = Inr ?s0 \<and>
        fst (main_loop rt ?s0 (snd (new_game rt t c))) = Inr ?lost \<and>
        stdin ?c2 = rest \<and>
        play_round rt t c = end_game rt ?lost ?c2 \<and>
        (\<exists>pre post. stdout (snd (play_round rt t c)) =
           pre @ lit ''The correct number was: '' @ str_int t @ [10] @ lose_message @ post)"
  proof (intro impI, elim conjE)
    assume a: "stdin c = choice # lines @ rest" and b: "lower rt (strip choice) = lit ''0''"
      and n: "length lines = 10"
      and w: "\<forall>l \<in> set lines. \<exists>g. py_int rt l = Some g \<and> 0 \<le> g \<and> g \<le> 100 \<and> g \<noteq> t"
    from new_game_choice [OF a, of rt t] b
    have ng: "fst (new_game rt t c) = Inr ?s0" "stdin (snd (new_game rt t c)) = lines @ rest"
      by simp_all
    from w have w': "\<forall>l \<in> set lines. wrong_guess rt (target_number ?s0) l"
      by (auto simp: wrong_guess_def)
    from n have "lines \<noteq> []" "remaining_attempts ?s0 = int (length lines)" by auto
    from wrong_guesses_lose [OF this _ w' ng(2)]
    have ml: "fst (main_loop rt ?s0 (snd (new_game rt t c))) = Inr ?lost" "stdin ?c2 = rest"
      by simp_all
    obtain c1 where n1: "new_game rt t c = (Inr ?s0, c1)"
      using ng(1) by (cases "new_game rt t c") simp
    obtain c2 where m1: "main_loop rt ?s0 c1 = (Inr ?lost, c2)"
      using ml(1) n1 by (cases "main_loop rt ?s0 c1") simp
    from n1 m1 have pr: "play_round rt t c = end_game rt ?lost ?c2"
      by (simp add: play_round_def)
    from lost_end_shows_target [of ?lost rt ?c2] obtain pre post
      where "stdout (snd (end_game rt ?lost ?c2)) =
           stdout ?c2 @ pre @ lit ''The correct number was: '' @ str_int t @ [10] @
           lose_message @ post"
      by auto
    then have "stdout (snd (play_round rt t c)) =
           (stdout ?c2 @ pre) @ lit ''The correct number was: '' @ str_int t @ [10] @
           lose_message @ post"
      unfolding pr by (simp del: lit_Cons)
    then have "\<exists>pre post. stdout (snd (play_round rt t c)) =
           pre @ lit ''The correct number was: '' @ str_int t @ [10] @ lose_message @ post"
      by blast
    with ng(1) ml pr
    show "fst (new_game rt t c) = Inr ?s0 \<and>
        fst (main_loop rt ?s0 (snd (new_game rt t c))) = Inr ?lost \<and>
        stdin ?c2 = rest \<and>
        play_round rt t c = end_game rt ?lost ?c2 \<and>
        (\<exists>pre post. stdout (snd (play_round rt t c)) =
           pre @ lit ''The correct number was: '' @ str_int t @ [10] @ lose_message @ post)"
      by blast
  qed
  have B: "main_loop rt s c = (Inr s', c') \<longrightarrow> game_state s' = WON \<or> game_state s' = LOST"
    using main_loop_final [of rt s c s' c'] by (cases "game_state s'") auto
  have C: "game_state s = LOST \<longrightarrow>
      (\<exists>pre post. stdout (snd (end_game rt s c)) =
         stdout c @ pre @ lit ''The correct number was: '' @ str_int (target_number s) @
         [10] @ lose_message @ post)"
    using lost_end_shows_target [of s rt c] by blast
  have D: "game_state s = WON \<longrightarrow>
      (\<exists>out. stdout (snd (end_game rt s c)) = stdout c @ out \<and>
         (\<forall>pre post. out \<noteq> pre @ str_int (target_number s) @ post))"
    using won_end_hides_target [of s rt c "target_number s"] by blast
  show ?thesis unfolding dv by (intro conjI A B C D)
qed

text \<open>
  Target 42, the choice \<open>0\<close>, the ten guesses 50 to 59 and the answer \<open>n\<close>; and
  \<open>end_game\<close> after a round that was won.
\<close>

theorem lost_round_shows_target_witness:
  "\<forall>rt.
     fst (main_loop rt \<lparr>target_number = 42, remaining_attempts = 10, game_state = PLAYING\<rparr>
            (snd (new_game rt 42
               \<lparr>stdin = [lit ''0'', lit ''50'', lit ''51'', lit ''52'', lit ''53'', lit ''54'',
                          lit ''55'', lit ''56'', lit ''57'', lit ''58'', lit ''59'', lit ''n''],
                  stdout = []\<rparr>))) =
       Inr \<lparr>target_number = 42, remaining_attempts = 0, game_state = LOST\<rparr> \<and>
     (\<exists>pre post.
        stdout (snd (play_round rt 42
               \<lparr>stdin = [lit ''0'', lit ''50'', lit ''51'', lit ''52'', lit ''53'', lit ''54'',
                          lit ''55'', lit ''56'', lit ''57'', lit ''58'', lit ''59'', lit ''n''],
                  stdout = []\<rparr>)) =
        pre @ lit ''The correct number was: 42'' @ [10] @ lose_message @ post) \<and>
     (\<exists>out.
        stdout (snd (end_game rt
                       \<lparr>target_number = 42, remaining_attempts = 7, game_state = WON\<rparr>
                       \<lparr>stdin = [lit ''n''], stdout = []\<rparr>)) = out \<and>
        (\<forall>pre post. out \<noteq> pre @ lit ''42'' @ post))"
proof
  fix rt
  let ?lines = "[lit ''50'', lit ''51'', lit ''52'', lit ''53'', lit ''54'', lit ''55'',
                 lit ''56'', lit ''57'', lit ''58'', lit ''59'']"
  let ?c = "\<lparr>stdin = [lit ''0'', lit ''50'', lit ''51'', lit ''52'', lit ''53'', lit ''54'',
                         lit ''55'', lit ''56'', lit ''57'', lit ''58'', lit ''59'', lit ''n''],
              stdout = []\<rparr>"
  let ?s0 = "\<lparr>target_number = 42, remaining_attempts = 10, game_state = PLAYING\<rparr>"
  let ?lost = "\<lparr>target_number = 42, remaining_attempts = 0, game_state = LOST\<rparr>"
  let ?won = "\<lparr>target_number = 42, remaining_attempts = 7, game_state = WON\<rparr>"
  let ?e = "\<lparr>stdin = [lit ''n''], stdout = []\<rparr>"
  have dv: "Difficulty_value NORMAL = 10" by simp
  have h: "stdin ?c = lit ''0'' # ?lines @ [lit ''n''] \<and> lower rt (strip (lit ''0'')) = lit ''0'' \<and>
           length ?lines = 10 \<and>
           (\<forall>l \<in> set ?lines. \<exists>g. py_int rt l = Some g \<and> 0 \<le> g \<and> g \<le> 100 \<and> g \<noteq> 42)"
    using ten_lines_wrong [of rt] normalise_examples(5) [of rt] by simp
  note r = lost_round_shows_target
      [where rt = rt and t = 42 and c = ?c and choice = "lit ''0''" and lines = ?lines
         and rest = "[lit ''n'']", THEN conjunct1, THEN mp, OF h, unfolded dv]
  note a = r [THEN conjunct2, THEN conjunct1]
  note b = r [THEN conjunct2, THEN conjunct2, THEN conjunct2, THEN conjunct2]
  from a obtain c' where ml: "main_loop rt ?s0 (snd (new_game rt 42 ?c)) = (Inr ?lost, c')"
    by (cases "main_loop rt ?s0 (snd (new_game rt 42 ?c))") simp
  from ml lost_round_shows_target
      [where rt = rt and c = "snd (new_game rt 42 ?c)" and s = ?s0 and s' = ?lost and c' = c']
  have "game_state ?lost = WON \<or> game_state ?lost = LOST" by blast
  have l: "game_state ?lost = LOST" and w: "game_state ?won = WON" by simp_all
  note lost_round_shows_target [where rt = rt and s = ?lost and c = ?e,
      THEN conjunct2, THEN conjunct2, THEN conjunct1, THEN mp, OF l]
  note d0 = lost_round_shows_target [where rt = rt and s = ?won and c = ?e,
      THEN conjunct2, THEN conjunct2, THEN conjunct2, THEN mp, OF w]
  have t: "lit ''The correct number was: '' @ str_int 42 = lit ''The correct number was: 42''"
    by (simp add: str_int_42 [simplified])
  from d0 have d: "\<exists>out. stdout (snd (end_game rt ?won ?e)) = out \<and>
         (\<forall>pre post. out \<noteq> pre @ lit ''42'' @ post)"
    by (simp add: str_int_42 [simplified])
  from b have "\<exists>pre post. stdout (snd (play_round rt 42 ?c)) =
        pre @ (lit ''The correct number was: '' @ str_int 42) @ [10] @ lose_message @ post"
    by (simp only: append_assoc)
  then have b': "\<exists>pre post. stdout (snd (play_round rt 42 ?c)) =
        pre @ lit ''The correct number was: 42'' @ [10] @ lose_message @ post"
    by (simp only: t)
  show "fst (main_loop rt ?s0 (snd (new_game rt 42 ?c))) = Inr ?lost \<and>
     (\<exists>pre post. stdout (snd (play_round rt 42 ?c)) =
        pre @ lit ''The correct number was: 42'' @ [10] @ lose_message @ post) \<and>
     (\<exists>out. stdout (snd (end_game rt ?won ?e)) = out \<and>
        (\<forall>pre post. out \<noteq> pre @ lit ''42'' @ post))"
    by (intro conjI a b' d)
qed

subsection \<open>What is asked again\<close>

text \<open>
  C7. The two choices, of difficulty and of another round, are read by
  \<open>get_valid_input\<close>, which compares the line after \<open>strip\<close> and \<open>lower\<close>: a value it
  returns is one of the options; lines that are no option after \<open>strip\<close> and \<open>lower\<close>
  are passed over, however many, each with the prompt and the message, and the first
  line that is an option is returned in its \<open>strip\<close> and \<open>lower\<close> form; it returns a
  value exactly when some line left is an option; and \<open>end_game\<close> only returns \<open>y\<close> or
  \<open>n\<close>. The guess is not compared after \<open>strip\<close> and \<open>lower\<close>: it is read by \<open>int\<close>.
  White space around it, other than the separators U+001C to U+001F, makes no
  difference; on a line of ASCII characters \<open>lower\<close> makes no difference; and lines
  that \<open>int\<close> does not read, or reads as a number outside 0 to 100, are passed over,
  however many, each with its prompt and message.
\<close>

theorem input_contract:
  "(get_valid_input rt p v c = (Inr x, c') \<longrightarrow> x \<in> set v) \<and>
   (stdin c = bads @ line # rest \<and> (\<forall>l \<in> set bads. lower rt (strip l) \<notin> set v) \<and>
    lower rt (strip line) \<in> set v \<longrightarrow>
      get_valid_input rt p v c =
        (Inr (lower rt (strip line)),
         c\<lparr>stdin := rest,
           stdout := stdout c @
             concat (replicate (length bads) (p @ invalid_option_message v)) @ p\<rparr>)) \<and>
   ((\<exists>y. fst (get_valid_input rt p v c) = Inr y) \<longleftrightarrow>
      (\<exists>l \<in> set (stdin c). lower rt (strip l) \<in> set v)) \<and>
   (end_game rt s c = (Inr x, c') \<longrightarrow> x = lit ''y'' \<or> x = lit ''n'') \<and>
   (stdin c = line # rest \<and> (\<forall>ch \<in> set (a @ b). isspace ch \<and> ch \<notin> {0x1C, 0x1D, 0x1E, 0x1F}) \<longrightarrow>
      get_user_guess rt (c\<lparr>stdin := (a @ line @ b) # rest\<rparr>) = get_user_guess rt c) \<and>
   (stdin c = line # rest \<and> list_all (\<lambda>ch. ch < 128) line \<longrightarrow>
      get_user_guess rt (c\<lparr>stdin := lower rt line # rest\<rparr>) = get_user_guess rt c) \<and>
   (stdin c = bads @ rest \<and> (\<forall>l \<in> set bads. rejected rt l) \<longrightarrow>
      read_guess rt c =
        read_guess rt
          (c\<lparr>stdin := rest,
             stdout := stdout c @
               concat (map (\<lambda>l. guess_prompt @ rejection_message rt l) bads)\<rparr>))"
proof -
  have A: "get_valid_input rt p v c = (Inr x, c') \<longrightarrow> x \<in> set v"
    using get_valid_input_member [of rt p v c x c'] by blast
  have B: "stdin c = bads @ line # rest \<and> (\<forall>l \<in> set bads. lower rt (strip l) \<notin> set v) \<and>
      lower rt (strip line) \<in> set v \<longrightarrow>
      get_valid_input rt p v c =
        (Inr (lower rt (strip line)),
         c\<lparr>stdin := rest,
           stdout := stdout c @
             concat (replicate (length bads) (p @ invalid_option_message v)) @ p\<rparr>)"
  proof (intro impI, elim conjE)
    assume i: "stdin c = bads @ line # rest"
      and j: "\<forall>l \<in> set bads. lower rt (strip l) \<notin> set v"
      and g: "lower rt (strip line) \<in> set v"
    let ?c1 = "c\<lparr>stdin := line # rest,
          stdout := stdout c @ concat (replicate (length bads) (p @ invalid_option_message v))\<rparr>"
    have "get_valid_input rt p v c = get_valid_input rt p v ?c1"
      by (rule get_valid_input_skip [OF j i])
    moreover have "stdin ?c1 = line # rest" by simp
    from get_valid_input_accept [OF this g, of p]
    have "get_valid_input rt p v ?c1 =
        (Inr (lower rt (strip line)),
         c\<lparr>stdin := rest,
           stdout := stdout c @
             concat (replicate (length bads) (p @ invalid_option_message v)) @ p\<rparr>)"
      by simp
    ultimately show "get_valid_input rt p v c =
        (Inr (lower rt (strip line)),
         c\<lparr>stdin := rest,
           stdout := stdout c @
             concat (replicate (length bads) (p @ invalid_option_message v)) @ p\<rparr>)"
      by (rule trans)
  qed
  have C: "(\<exists>y. fst (get_valid_input rt p v c) = Inr y) \<longleftrightarrow>
      (\<exists>l \<in> set (stdin c). lower rt (strip l) \<in> set v)"
    by (rule get_valid_input_returns_iff)
  have D: "end_game rt s c = (Inr x, c') \<longrightarrow> x = lit ''y'' \<or> x = lit ''n''"
    using end_game_answer [of rt s c x c'] by blast
  have E: "stdin c = line # rest \<and>
      (\<forall>ch \<in> set (a @ b). isspace ch \<and> ch \<notin> {0x1C, 0x1D, 0x1E, 0x1F}) \<longrightarrow>
      get_user_guess rt (c\<lparr>stdin := (a @ line @ b) # rest\<rparr>) = get_user_guess rt c"
  proof (intro impI, elim conjE)
    assume i: "stdin c = line # rest"
      and j: "\<forall>ch \<in> set (a @ b). isspace ch \<and> ch \<notin> {0x1C, 0x1D, 0x1E, 0x1F}"
    from j have "\<forall>ch \<in> set (a @ b). isspace ch \<and> ch \<notin> {28, 29, 30, 31}" by simp
    then have "py_int rt (a @ line @ b) = py_int rt line" by (rule py_int_pad)
    with i show "get_user_guess rt (c\<lparr>stdin := (a @ line @ b) # rest\<rparr>) = get_user_guess rt c"
      by (rule get_user_guess_line)
  qed
  have F: "stdin c = line # rest \<and> list_all (\<lambda>ch. ch < 128) line \<longrightarrow>
      get_user_guess rt (c\<lparr>stdin := lower rt line # rest\<rparr>) = get_user_guess rt c"
    using get_user_guess_line [of c line rest rt "lower rt line"] py_int_lower_ascii [of line rt]
    by blast
  have G: "stdin c = bads @ rest \<and> (\<forall>l \<in> set bads. rejected rt l) \<longrightarrow>
      read_guess rt c =
        read_guess rt
          (c\<lparr>stdin := rest,
             stdout := stdout c @
               concat (map (\<lambda>l. guess_prompt @ rejection_message rt l) bads)\<rparr>)"
    using read_guess_skip [of bads rt c rest] by blast
  show ?thesis by (intro conjI A B C D E F G)
qed

text \<open>
  The replay question answered \<open>maybe\<close> and then \<open>Y\<close> between the blanks U+00A0 and
  U+3000; the guess \<open>42\<close> between U+00A0 and a blank; the guess \<open>4A\<close> in lower case;
  the guesses \<open>abc\<close> and \<open>150\<close> before \<open>42\<close>.
\<close>

theorem input_contract_witness:
  "\<forall>rt.
     get_valid_input rt (lit ''> '') [lit ''y'', lit ''n'']
         \<lparr>stdin = [lit ''maybe'', [0xA0, 89, 0x3000], lit ''x''], stdout = []\<rparr> =
       (Inr (lit ''y''),
        \<lparr>stdin = [lit ''x''],
           stdout = lit ''> '' @ invalid_option_message [lit ''y'', lit ''n''] @ lit ''> ''\<rparr>) \<and>
     lit ''y'' \<in> set [lit ''y'', lit ''n''] \<and>
     get_user_guess rt \<lparr>stdin = [[0xA0, 52, 50, 32]], stdout = []\<rparr> =
       get_user_guess rt \<lparr>stdin = [lit ''42''], stdout = []\<rparr> \<and>
     get_user_guess rt \<lparr>stdin = [lit ''4a''], stdout = []\<rparr> =
       get_user_guess rt \<lparr>stdin = [lit ''4A''], stdout = []\<rparr> \<and>
     read_guess rt \<lparr>stdin = [lit ''abc'', lit ''150'', lit ''42''], stdout = []\<rparr> =
       read_guess rt \<lparr>stdin = [lit ''42''],
                       stdout = guess_prompt @ not_integer_message @
                                guess_prompt @ out_of_range_message\<rparr>"
proof
  fix rt
  let ?v = "[lit ''y'', lit ''n'']"
  let ?c = "\<lparr>stdin = [lit ''maybe'', [0xA0, 89, 0x3000], lit ''x''], stdout = []\<rparr>"
  let ?c' = "\<lparr>stdin = [lit ''x''],
               stdout = lit ''> '' @ invalid_option_message [lit ''y'', lit ''n''] @ lit ''> ''\<rparr>"
  let ?e = "\<lparr>stdin = [], stdout = []\<rparr>"
  let ?g = "\<lparr>stdin = [lit ''42''], stdout = []\<rparr>"
  let ?u = "\<lparr>stdin = [lit ''4A''], stdout = []\<rparr>"
  let ?r = "\<lparr>stdin = [lit ''abc'', lit ''150'', lit ''42''], stdout = []\<rparr>"
  let ?lost = "\<lparr>target_number = 42, remaining_attempts = 0, game_state = LOST\<rparr>"
  have h: "stdin ?c = [lit ''maybe''] @ [0xA0, 89, 0x3000] # [lit ''x''] \<and>
           (\<forall>l \<in> set [lit ''maybe'']. lower rt (strip l) \<notin> set ?v) \<and>
           lower rt (strip [0xA0, 89, 0x3000]) \<in> set ?v"
    by (simp add: normalise_examples [simplified] normalise_nbsp [simplified])
  from h input_contract
      [where rt = rt and p = "lit ''> ''" and v = ?v and c = ?c and bads = "[lit ''maybe'']"
         and line = "[0xA0, 89, 0x3000]" and rest = "[lit ''x'']"]
  have a: "get_valid_input rt (lit ''> '') ?v ?c = (Inr (lit ''y''), ?c')"
    by (simp add: normalise_nbsp [simplified])
  from a input_contract
      [where rt = rt and p = "lit ''> ''" and v = ?v and c = ?c and x = "lit ''y''" and c' = ?c']
  have b: "lit ''y'' \<in> set ?v" by blast
  have "stdin ?g = lit ''42'' # [] \<and>
        (\<forall>ch \<in> set ([0xA0] @ [32]). isspace ch \<and> ch \<notin> {0x1C, 0x1D, 0x1E, 0x1F})"
    by (simp add: isspace_def)
  with input_contract
      [where rt = rt and c = ?g and line = "lit ''42''" and rest = "[]" and a = "[0xA0]"
         and b = "[32]"]
  have c: "get_user_guess rt \<lparr>stdin = [[0xA0, 52, 50, 32]], stdout = []\<rparr> = get_user_guess rt ?g"
    by simp
  have "stdin ?u = lit ''4A'' # [] \<and> list_all (\<lambda>ch. ch < 128) (lit ''4A'')" by simp
  with input_contract [where rt = rt and c = ?u and line = "lit ''4A''" and rest = "[]"]
  have d: "get_user_guess rt \<lparr>stdin = [lit ''4a''], stdout = []\<rparr> = get_user_guess rt ?u"
    by (simp add: lower_example [simplified])
  have r: "stdin ?r = [lit ''abc'', lit ''150''] @ [lit ''42''] \<and>
           (\<forall>l \<in> set [lit ''abc'', lit ''150'']. rejected rt l)"
    by (simp add: rejected_def py_int_examples [simplified])
  have m: "rejection_message rt (lit ''abc'') = not_integer_message"
    "rejection_message rt (lit ''150'') = out_of_range_message"
    by (simp_all add: rejection_message_def py_int_examples [simplified])
  from r input_contract
      [where rt = rt and c = ?r and bads = "[lit ''abc'', lit ''150'']" and rest = "[lit ''42'']"]
  have e: "read_guess rt ?r =
       read_guess rt \<lparr>stdin = [lit ''42''],
                       stdout = guess_prompt @ not_integer_message @
                                guess_prompt @ out_of_range_message\<rparr>"
    by (simp add: m [simplified])
  from end_game_example [of rt] obtain c2
    where eg: "end_game rt ?lost \<lparr>stdin = [lit ''N''], stdout = []\<rparr> = (Inr (lit ''n''), c2)" ..
  from eg input_contract
      [where rt = rt and s = ?lost and c = "\<lparr>stdin = [lit ''N''], stdout = []\<rparr>"
         and x = "lit ''n''" and c' = c2]
  have "lit ''n'' = lit ''y'' \<or> lit ''n'' = lit ''n''" by blast
  show "get_valid_input rt (lit ''> '') ?v ?c = (Inr (lit ''y''), ?c') \<and>
     lit ''y'' \<in> set ?v \<and>
     get_user_guess rt \<lparr>stdin = [[0xA0, 52, 50, 32]], stdout = []\<rparr> = get_user_guess rt ?g \<and>
     get_user_guess rt \<lparr>stdin = [lit ''4a''], stdout = []\<rparr> = get_user_guess rt ?u \<and>
     read_guess rt ?r =
       read_guess rt \<lparr>stdin = [lit ''42''],
                       stdout = guess_prompt @ not_integer_message @
                                guess_prompt @ out_of_range_message\<rparr>"
    by (intro conjI a b c d e)
qed

text \<open>
  The guess typed as U+001C followed by \<open>42\<close>: \<open>strip\<close> and \<open>lower\<close> make \<open>42\<close> of
  it, a guess that is taken, but \<open>get_user_guess\<close> turns the line itself down. So the
  guess is not compared after trimming as the two choices are.
\<close>

theorem input_contract_counterexample:
  "\<forall>rt.
     lower rt (strip [0x1C, 52, 50]) = lit ''42'' \<and>
     fst (get_user_guess rt \<lparr>stdin = [lower rt (strip [0x1C, 52, 50])], stdout = []\<rparr>) =
       Inr (Some 42) \<and>
     fst (get_user_guess rt \<lparr>stdin = [[0x1C, 52, 50]], stdout = []\<rparr>) = Inr None \<and>
     fst (get_valid_input rt [] [lit ''42''] \<lparr>stdin = [[0x1C, 52, 50]], stdout = []\<rparr>) =
       Inr (lit ''42'')"
proof
  fix rt
  have n: "lower rt (strip [0x1C, 52, 50]) = lit ''42''" by (rule normalise_examples)
  have "stdin \<lparr>stdin = [lit ''42''], stdout = []\<rparr> = lit ''42'' # []" by simp
  from get_user_guess_accept [OF this py_int_examples(3) [of rt]]
  have a: "fst (get_user_guess rt \<lparr>stdin = [lit ''42''], stdout = []\<rparr>) = Inr (Some 42)"
    by simp
  have i: "stdin \<lparr>stdin = [[0x1C, 52, 50]], stdout = []\<rparr> = [0x1C, 52, 50] # []" by simp
  have "rejected rt [0x1C, 52, 50]" by (simp add: rejected_def py_int_examples [simplified])
  from get_user_guess_rejected [OF i this]
  have b: "fst (get_user_guess rt \<lparr>stdin = [[0x1C, 52, 50]], stdout = []\<rparr>) = Inr None"
    by simp
  have "lower rt (strip [0x1C, 52, 50]) \<in> set [lit ''42'']" unfolding n by simp
  from get_valid_input_accept [OF i this, of "[]"] n
  have c: "fst (get_valid_input rt [] [lit ''42''] \<lparr>stdin = [[0x1C, 52, 50]], stdout = []\<rparr>) =
       Inr (lit ''42'')"
    by simp
  from a have a': "fst (get_user_guess rt \<lparr>stdin = [lower rt (strip [0x1C, 52, 50])],
       stdout = []\<rparr>) = Inr (Some 42)"
    unfolding n .
  show "lower rt (strip [0x1C, 52, 50]) = lit ''42'' \<and>
     fst (get_user_guess rt \<lparr>stdin = [lower rt (strip [0x1C, 52, 50])], stdout = []\<rparr>) =
       Inr (Some 42) \<and>
     fst (get_user_guess rt \<lparr>stdin = [[0x1C, 52, 50]], stdout = []\<rparr>) = Inr None \<and>
     fst (get_valid_input rt [] [lit ''42''] \<lparr>stdin = [[0x1C, 52, 50]], stdout = []\<rparr>) =
       Inr (lit ''42'')"
    by (intro conjI n a' b c)
qed

subsection \<open>The hearts\<close>

text \<open>
  C8. \<open>show_life_hearts n\<close> writes the string of line 97, the three characters U+00E2,
  U+00A4 and a blank, once for each of the \<open>n\<close> attempts (none when \<open>n\<close> is negative) and
  then ends the line. For one attempt the line is U+00E2, U+00A4, blank: per attempt it
  shows two symbols, a letter and a currency sign, and the heart U+2764 that the
  docstring of line 91 promises is never written. The loop of a round writes the label,
  this line for the attempts that remain, and only then asks for the guess.
\<close>

theorem show_life_hearts_prints:
  "show_life_hearts n c =
     c\<lparr>stdout := stdout c @ concat (replicate (nat n) [0xE2, 0xA4, 0x20]) @ [10]\<rparr> \<and>
   stdout (show_life_hearts 1 \<lparr>stdin = [], stdout = []\<rparr>) = [0xE2, 0xA4, 0x20, 10] \<and>
   length (filter (\<lambda>ch. ch \<noteq> 0x20 \<and> ch \<noteq> 10)
             (stdout (show_life_hearts n \<lparr>stdin = [], stdout = []\<rparr>))) = 2 * nat n \<and>
   0x2764 \<notin> set (stdout (show_life_hearts n \<lparr>stdin = [], stdout = []\<rparr>)) \<and>
   main_loop rt (s\<lparr>game_state := PLAYING\<rparr>) c =
     (case read_guess rt
             (c\<lparr>stdout := stdout c @ 10 # lit ''Attempts remaining: '' @
                   concat (replicate (nat (remaining_attempts s)) [0xE2, 0xA4, 0x20]) @ [10]\<rparr>) of
        (Inl e, c') \<Rightarrow> (Inl e, c')
      | (Inr g, c') \<Rightarrow>
          main_loop rt (fst (turn g (s\<lparr>game_state := PLAYING\<rparr>) c'))
            (snd (turn g (s\<lparr>game_state := PLAYING\<rparr>) c')))"
proof -
  have k: "length (filter (\<lambda>ch. ch \<noteq> 0x20 \<and> ch \<noteq> 10)
             (concat (replicate k [0xE2, 0xA4, 0x20::nat]))) = 2 * k" for k
    by (induction k) simp_all
  have j: "0x2764 \<notin> set (concat (replicate k [0xE2, 0xA4, 0x20::nat]))" for k
    by (induction k) simp_all
  have "main_loop rt (s\<lparr>game_state := PLAYING\<rparr>) c =
     (case read_guess rt
             (c\<lparr>stdout := stdout c @ 10 # lit ''Attempts remaining: '' @
                   concat (replicate (nat (remaining_attempts s)) [0xE2, 0xA4, 0x20]) @ [10]\<rparr>) of
        (Inl e, c') \<Rightarrow> (Inl e, c')
      | (Inr g, c') \<Rightarrow>
          main_loop rt (fst (turn g (s\<lparr>game_state := PLAYING\<rparr>) c'))
            (snd (turn g (s\<lparr>game_state := PLAYING\<rparr>) c')))"
    by (simp add: show_life_hearts_screen main_loop.simps [of rt "s\<lparr>game_state := PLAYING\<rparr>" c]
          print_end_def split: prod.splits sum.splits)
  then show ?thesis
    by (simp add: show_life_hearts_screen k j)
qed

end
